theory Spec2Isabelle
  imports Complex_Main "HOL-Library.Sublist"
begin

section \<open>Python values and exceptions\<close>

text \<open>
  The notebooks pass around JSON-like dictionaries that mirror AWS request and response
  shapes. They are modelled by one datatype of Python values. A dictionary is an
  association list with string keys (the first binding of a key is the one that counts),
  a string is a list of characters with code points below 256. Console output
  (\<^verbatim>\<open>print\<close>, \<^verbatim>\<open>display\<close>) is not modelled.
\<close>

datatype pyval =
    PNone
  | PBool bool
  | PInt int
  | PFloat real
  | PStr string
  | PList "pyval list"
  | PDict "(string \<times> pyval) list"

text \<open>
  Exceptions are values. A botocore \<^verbatim>\<open>ClientError\<close> carries the error code of its
  response (\<^verbatim>\<open>e.response['Error']['Code']\<close>); botocore derives the modeled exception
  classes such as \<^verbatim>\<open>ConflictException\<close> from that code.
\<close>

datatype exn =
    KeyError
  | IndexError
  | TypeError
  | ValueError
  | ClientError string
  | OtherException string

definition bind_exn :: "exn + 'a \<Rightarrow> ('a \<Rightarrow> exn + 'b) \<Rightarrow> exn + 'b" where
  "bind_exn m f = (case m of Inl e \<Rightarrow> Inl e | Inr x \<Rightarrow> f x)"

datatype key = KStr string | KInt int

definition py_index :: "'a list \<Rightarrow> int \<Rightarrow> exn + 'a" where
  \<comment> \<open>\<^verbatim>\<open>xs[i]\<close> on a sequence: positions \<open>-len\<close> to \<open>len - 1\<close> are valid\<close>
  "py_index xs i =
     (if 0 \<le> i \<and> i < int (length xs) then Inr (xs ! nat i)
      else if i < 0 \<and> - int (length xs) \<le> i then Inr (xs ! nat (int (length xs) + i))
      else Inl IndexError)"

fun getitem :: "pyval \<Rightarrow> key \<Rightarrow> exn + pyval" where
  "getitem (PDict kvs) (KStr k) =
     (case map_of kvs k of None \<Rightarrow> Inl KeyError | Some v \<Rightarrow> Inr v)"
| "getitem (PDict kvs) (KInt i) = Inl KeyError"
| "getitem (PList xs) (KInt i) = py_index xs i"
| "getitem (PList xs) (KStr k) = Inl TypeError"
| "getitem (PStr s) (KInt i) = bind_exn (py_index s i) (\<lambda>c. Inr (PStr [c]))"
| "getitem (PStr s) (KStr k) = Inl TypeError"
| "getitem v k = Inl TypeError"

fun unpack2 :: "pyval \<Rightarrow> exn + (pyval \<times> pyval)" where
  \<comment> \<open>\<^verbatim>\<open>a, b = v\<close>: the iterable must yield exactly two items\<close>
  "unpack2 (PList [a, b]) = Inr (a, b)"
| "unpack2 (PList xs) = Inl ValueError"
| "unpack2 (PStr [a, b]) = Inr (PStr [a], PStr [b])"
| "unpack2 (PStr s) = Inl ValueError"
| "unpack2 (PDict [(a, x), (b, y)]) = Inr (PStr a, PStr b)"
| "unpack2 (PDict kvs) = Inl ValueError"
| "unpack2 v = Inl TypeError"

section \<open>The weather agent notebook: the two tools\<close>

text \<open>
  \<^verbatim>\<open>get_lat_long\<close> asks the place index for one result and unpacks its point. The
  lookup \<^verbatim>\<open>location_client.search_place_index_for_text\<close> is the parameter
  \<open>search\<close>, a function of the \<^verbatim>\<open>Text\<close> argument: it answers with a response or
  raises (also when the argument is not a string). The \<^verbatim>\<open>try\<close> body is
  \<open>get_lat_long_try\<close>; the bare \<^verbatim>\<open>except:\<close> replaces every exception by the
  pair of strings "0", "0".
\<close>

definition get_lat_long_try :: "(pyval \<Rightarrow> exn + pyval) \<Rightarrow> pyval \<Rightarrow> exn + (pyval \<times> pyval)" where
  "get_lat_long_try search place =
     bind_exn (search place) (\<lambda>response.
     bind_exn (getitem response (KStr ''Results'')) (\<lambda>results.
     bind_exn (getitem results (KInt 0)) (\<lambda>result.
     bind_exn (getitem result (KStr ''Place'')) (\<lambda>pl.
     bind_exn (getitem pl (KStr ''Geometry'')) (\<lambda>geometry.
     bind_exn (getitem geometry (KStr ''Point'')) (\<lambda>point.
     unpack2 point))))))"

definition get_lat_long :: "(pyval \<Rightarrow> exn + pyval) \<Rightarrow> pyval \<Rightarrow> exn + pyval" where
  "get_lat_long search place =
     (let (lon, lat) =
            (case get_lat_long_try search place of
               Inr (lon, lat) \<Rightarrow> (lon, lat)
             | Inl e \<Rightarrow> (PStr ''0'', PStr ''0''))
      in Inr (PDict [(''latitude'', lat), (''longitude'', lon)]))"

section \<open>Idempotent resource creation\<close>

text \<open>
  The glossary notebook creates its DynamoDB table inside a \<^verbatim>\<open>try\<close>:
  a \<^verbatim>\<open>ClientError\<close> with code \<^verbatim>\<open>ResourceInUseException\<close> is swallowed, any other
  \<^verbatim>\<open>ClientError\<close> is raised again, and an exception of another class is not caught at
  all. The service call \<^verbatim>\<open>dynamodb.create_table\<close> is the parameter \<open>create_table\<close>.
\<close>

definition create_dynamo_table :: "(pyval \<Rightarrow> exn + pyval) \<Rightarrow> string \<Rightarrow> exn + pyval" where
  "create_dynamo_table create_table table_name =
     (let key_schema = PList [PDict [(''AttributeName'', PStr ''term''), (''KeyType'', PStr ''HASH'')]];
          attribute_definitions =
            PList [PDict [(''AttributeName'', PStr ''term''), (''AttributeType'', PStr ''S'')]]
      in create_table (PDict
           [(''TableName'', PStr table_name),
            (''KeySchema'', key_schema),
            (''AttributeDefinitions'', attribute_definitions),
            (''ProvisionedThroughput'',
               PDict [(''ReadCapacityUnits'', PInt 5), (''WriteCapacityUnits'', PInt 5)])]))"

definition create_table_cell :: "(pyval \<Rightarrow> exn + pyval) \<Rightarrow> exn + unit" where
  "create_table_cell create_table =
     (let table_name = ''glossary-2'' in
      case create_dynamo_table create_table table_name of
        Inr table_response \<Rightarrow> Inr ()
      | Inl (ClientError code) \<Rightarrow>
          if code = ''ResourceInUseException'' then Inr () else Inl (ClientError code)
      | Inl e \<Rightarrow> Inl e)"

text \<open>
  The weather notebook creates its place index the same way, catching the modeled
  exception \<^verbatim>\<open>ConflictException\<close> and nothing else.
\<close>

definition place_index_name :: string where
  "place_index_name = ''Bedrock-RAG-Foundations-Workshop-PlaceIndex''"

definition create_place_index_cell :: "(pyval \<Rightarrow> exn + pyval) \<Rightarrow> exn + unit" where
  "create_place_index_cell create_place_index =
     (case create_place_index
             (PDict [(''DataSource'', PStr ''Esri''), (''IndexName'', PStr place_index_name)]) of
        Inr r \<Rightarrow> Inr ()
      | Inl (ClientError code) \<Rightarrow>
          if code = ''ConflictException'' then Inr () else Inl (ClientError code)
      | Inl e \<Rightarrow> Inl e)"

section \<open>Waiting for the Glue crawler\<close>

text \<open>
  After starting the crawler the metadata notebook polls \<^verbatim>\<open>get_crawler\<close> in a
  \<^verbatim>\<open>while True\<close> loop, leaves the loop when the state is "READY" and otherwise
  sleeps ten seconds. The loop is a step relation on a configuration. The answers
  of the service are the parameter \<open>get_crawler\<close>: its \<open>k\<close>-th call (counted from 0)
  returns a response or raises. The loop state counts the polls made and the seconds slept
  inside the loop, and holds the variable \<^verbatim>\<open>state_previous\<close>.
\<close>

record poll_state =
  polls :: nat
  slept :: nat
  state_previous :: "pyval option"

datatype poll_config = Running poll_state | Finished poll_state | Raised exn

definition crawler_state :: "exn + pyval \<Rightarrow> exn + pyval" where
  \<comment> \<open>\<^verbatim>\<open>response_get["Crawler"]["State"]\<close>\<close>
  "crawler_state r =
     bind_exn r (\<lambda>response_get.
     bind_exn (getitem response_get (KStr ''Crawler'')) (\<lambda>crawler.
     getitem crawler (KStr ''State'')))"

definition poll_start :: poll_state where
  "poll_start = \<lparr>polls = 0, slept = 0, state_previous = None\<rparr>"

definition observed :: "pyval \<Rightarrow> poll_state \<Rightarrow> poll_state" where
  "observed st s =
     s\<lparr>polls := Suc (polls s),
       state_previous := (if Some st \<noteq> state_previous s then Some st else state_previous s)\<rparr>"

inductive poll_step :: "(nat \<Rightarrow> exn + pyval) \<Rightarrow> poll_config \<Rightarrow> poll_config \<Rightarrow> bool"
  for get_crawler :: "nat \<Rightarrow> exn + pyval"
where
  poll_raise:
    "crawler_state (get_crawler (polls s)) = Inl e
     \<Longrightarrow> poll_step get_crawler (Running s) (Raised e)"
| poll_ready:
    "crawler_state (get_crawler (polls s)) = Inr st \<Longrightarrow> st = PStr ''READY''
     \<Longrightarrow> poll_step get_crawler (Running s) (Finished (observed st s))"
| poll_sleep:
    "crawler_state (get_crawler (polls s)) = Inr st \<Longrightarrow> st \<noteq> PStr ''READY''
     \<Longrightarrow> poll_step get_crawler (Running s) (Running ((observed st s)\<lparr>slept := slept s + 10\<rparr>))"

code_pred poll_step .

text \<open>
  \<open>busy get_crawler k\<close>: the \<open>k\<close>-th poll returns a state and that state is not
  "READY". \<open>waiting get_crawler n\<close> is the loop state after \<open>n\<close> such polls, and
  \<open>finished_at n\<close> the loop state when poll number \<open>n\<close> was the first to see "READY".
\<close>

definition busy :: "(nat \<Rightarrow> exn + pyval) \<Rightarrow> nat \<Rightarrow> bool" where
  "busy get_crawler k \<longleftrightarrow>
     (case crawler_state (get_crawler k) of Inl e \<Rightarrow> False | Inr st \<Rightarrow> st \<noteq> PStr ''READY'')"

definition waiting :: "(nat \<Rightarrow> exn + pyval) \<Rightarrow> nat \<Rightarrow> poll_state" where
  "waiting get_crawler n =
     \<lparr>polls = n, slept = 10 * n,
      state_previous =
        (case n of 0 \<Rightarrow> None
         | Suc k \<Rightarrow> (case crawler_state (get_crawler k) of Inl e \<Rightarrow> None | Inr st \<Rightarrow> Some st))\<rparr>"

definition finished_at :: "nat \<Rightarrow> poll_state" where
  "finished_at n = \<lparr>polls = Suc n, slept = 10 * n, state_previous = Some (PStr ''READY'')\<rparr>"

definition poll_inv :: "(nat \<Rightarrow> exn + pyval) \<Rightarrow> poll_config \<Rightarrow> bool" where
  "poll_inv g c =
     (case c of
        Running s \<Rightarrow> (\<exists>n. (\<forall>k<n. busy g k) \<and> s = waiting g n)
      | Finished s \<Rightarrow> (\<exists>n. (\<forall>k<n. busy g k) \<and> crawler_state (g n) = Inr (PStr ''READY'')
                          \<and> s = finished_at n)
      | Raised e \<Rightarrow> (\<exists>n. (\<forall>k<n. busy g k) \<and> crawler_state (g n) = Inl e))"

text \<open>A crawler that is seen running twice and ready at the third poll.\<close>

definition sample_crawler :: "nat \<Rightarrow> exn + pyval" where
  "sample_crawler k =
     Inr (PDict [(''Crawler'',
            PDict [(''Name'', PStr ''my-s3-crawler''),
                   (''State'', PStr (if k < 2 then ''RUNNING'' else ''READY''))])])"

section \<open>Reading all glossary terms from DynamoDB\<close>

text \<open>
  \<^verbatim>\<open>get_all_terms\<close> scans the table page by page. \<^verbatim>\<open>table.scan\<close> is the parameter
  \<open>scan\<close>: its call number \<open>i\<close> (from 0) with an optional \<^verbatim>\<open>ExclusiveStartKey\<close>
  returns a response dictionary or raises. The \<^verbatim>\<open>while\<close> loop is \<open>scan_more\<close>; it
  runs for as long as the service keeps answering with a \<^verbatim>\<open>LastEvaluatedKey\<close>, so
  its result is optional: \<open>None\<close> stands for a loop that never ends. A run records the
  start keys of the scans it issued and its outcome.
\<close>

type_synonym pydict = "(string \<times> pyval) list"

fun py_iter :: "pyval \<Rightarrow> exn + pyval list" where
  "py_iter (PList xs) = Inr xs"
| "py_iter (PStr s) = Inr (map (\<lambda>c. PStr [c]) s)"
| "py_iter (PDict kvs) = Inr (map (\<lambda>kv. PStr (fst kv)) kvs)"
| "py_iter v = Inl TypeError"

fun map_exn :: "('a \<Rightarrow> exn + 'b) \<Rightarrow> 'a list \<Rightarrow> exn + 'b list" where
  "map_exn f [] = Inr []"
| "map_exn f (x # xs) = bind_exn (f x) (\<lambda>y. bind_exn (map_exn f xs) (\<lambda>ys. Inr (y # ys)))"

definition page_terms :: "pydict \<Rightarrow> exn + pyval list" where
  "page_terms response =
     bind_exn (getitem (PDict response) (KStr ''Items'')) (\<lambda>items.
     bind_exn (py_iter items) (\<lambda>its.
     map_exn (\<lambda>item. getitem item (KStr ''term'')) its))"

record scan_run =
  requests :: "pyval option list"
  outcome :: "exn + pyval list"

partial_function (option) scan_more ::
  "(nat \<Rightarrow> pyval option \<Rightarrow> exn + pydict) \<Rightarrow> pyval option list \<Rightarrow> pydict \<Rightarrow> pyval list
     \<Rightarrow> scan_run option"
where
  "scan_more scan reqs response terms =
     (case map_of response ''LastEvaluatedKey'' of
        None \<Rightarrow> Some \<lparr>requests = reqs, outcome = Inr terms\<rparr>
      | Some k \<Rightarrow>
          (case scan (length reqs) (Some k) of
             Inl e \<Rightarrow> Some \<lparr>requests = reqs @ [Some k], outcome = Inl e\<rparr>
           | Inr response' \<Rightarrow>
               (case page_terms response' of
                  Inl e \<Rightarrow> Some \<lparr>requests = reqs @ [Some k], outcome = Inl e\<rparr>
                | Inr ts \<Rightarrow> scan_more scan (reqs @ [Some k]) response' (terms @ ts))))"

definition get_all_terms :: "(nat \<Rightarrow> pyval option \<Rightarrow> exn + pydict) \<Rightarrow> scan_run option" where
  "get_all_terms scan =
     (case scan 0 None of
        Inl e \<Rightarrow> Some \<lparr>requests = [None], outcome = Inl e\<rparr>
      | Inr response \<Rightarrow>
          (case page_terms response of
             Inl e \<Rightarrow> Some \<lparr>requests = [None], outcome = Inl e\<rparr>
           | Inr terms \<Rightarrow> scan_more scan [None] response terms))"

text \<open>
  \<open>scan_pages scan i k ps\<close>: the scans numbered from \<open>i\<close>, the first with start key
  \<open>k\<close> and each next one with the \<^verbatim>\<open>LastEvaluatedKey\<close> of the page before, succeed
  and return the pages \<open>ps\<close>, the last of which has no \<^verbatim>\<open>LastEvaluatedKey\<close>.
  \<open>page_has p ts\<close>: the items of page \<open>p\<close> are a list and \<open>ts\<close> are their "term"
  attributes in order.
\<close>

fun scan_pages :: "(nat \<Rightarrow> pyval option \<Rightarrow> exn + pydict) \<Rightarrow> nat \<Rightarrow> pyval option \<Rightarrow> pydict list \<Rightarrow> bool" where
  "scan_pages scan i k [] = False"
| "scan_pages scan i k (p # ps) =
     (scan i k = Inr p \<and>
      (case map_of p ''LastEvaluatedKey'' of
         None \<Rightarrow> ps = []
       | Some k' \<Rightarrow> scan_pages scan (Suc i) (Some k') ps))"

definition page_has :: "pydict \<Rightarrow> pyval list \<Rightarrow> bool" where
  "page_has p ts \<longleftrightarrow>
     (\<exists>items. map_of p ''Items'' = Some (PList items)
        \<and> list_all2 (\<lambda>item t. getitem item (KStr ''term'') = Inr t) items ts)"

definition follow_ups :: "pydict list \<Rightarrow> pyval option list" where
  "follow_ups ps = map (\<lambda>p. map_of p ''LastEvaluatedKey'') (butlast ps)"

text \<open>A table that answers with two pages.\<close>

definition sample_scan :: "nat \<Rightarrow> pyval option \<Rightarrow> exn + pydict" where
  "sample_scan i k =
     (if k = None then
        Inr [(''Items'', PList [PDict [(''term'', PStr ''ceo'')], PDict [(''term'', PStr ''dcm'')]]),
             (''LastEvaluatedKey'', PDict [(''term'', PStr ''dcm'')])]
      else if k = Some (PDict [(''term'', PStr ''dcm'')]) then
        Inr [(''Items'', PList [PDict [(''term'', PStr ''htm'')]])]
      else Inl (ClientError ''ValidationException''))"

section \<open>Calls to a service client, logged\<close>

text \<open>
  A function that drives an AWS client is modelled by the list of calls it makes
  (operation and keyword arguments, in order) together with its result. A call that
  raises ends the run, as the exception would.
\<close>

type_synonym call = "string \<times> pyval"
type_synonym 'a logged = "call list \<times> (exn + 'a)"

definition then_log :: "'a logged \<Rightarrow> ('a \<Rightarrow> 'b logged) \<Rightarrow> 'b logged" where
  "then_log m f =
     (case m of
        (l, Inl e) \<Rightarrow> (l, Inl e)
      | (l, Inr x) \<Rightarrow> (case f x of (l', r) \<Rightarrow> (l @ l', r)))"

definition invoke :: "(string \<Rightarrow> pyval \<Rightarrow> exn + pyval) \<Rightarrow> string \<Rightarrow> pyval \<Rightarrow> pyval logged" where
  "invoke client operation kwargs = ([(operation, kwargs)], client operation kwargs)"

definition silent :: "exn + 'a \<Rightarrow> 'a logged" where
  "silent r = ([], r)"

section \<open>The knowledge-base execution role\<close>

text \<open>
  \<^verbatim>\<open>utility.py\<close> is present as compiled CPython 3.10 code; the model follows its
  instructions. \<^verbatim>\<open>create_bedrock_execution_role\<close> builds three policy documents,
  calls \<^verbatim>\<open>iam_client.create_policy\<close> twice and \<^verbatim>\<open>iam_client.create_role\<close> once,
  reads the ARNs out of the responses, calls \<^verbatim>\<open>iam_client.attach_role_policy\<close>
  twice and ends with \<^verbatim>\<open>LOAD_FAST bedrock_kb_execution_role; RETURN_VALUE\<close>: it
  returns the response of \<^verbatim>\<open>create_role\<close>. The local
  \<^verbatim>\<open>bedrock_kb_execution_role_arn\<close> is stored and never loaded. The names and the
  region are module globals, \<^verbatim>\<open>json.dumps\<close> and the IAM client are parameters.
\<close>

record utility_globals =
  region_name :: string
  account_number :: string
  fm_policy_name :: string
  s3_policy_name :: string
  bedrock_execution_role_name :: string

definition foundation_model_policy_document :: "utility_globals \<Rightarrow> pyval" where
  "foundation_model_policy_document g =
     PDict [(''Version'', PStr ''2012-10-17''),
            (''Statement'', PList [PDict
               [(''Effect'', PStr ''Allow''),
                (''Action'', PList [PStr ''bedrock:InvokeModel'']),
                (''Resource'', PList [PStr (''arn:aws:bedrock:'' @ region_name g
                     @ ''::foundation-model/cohere.embed-multilingual-v3'')])]])]"

definition s3_policy_document :: "utility_globals \<Rightarrow> string \<Rightarrow> pyval" where
  "s3_policy_document g bucket_name =
     PDict [(''Version'', PStr ''2012-10-17''),
            (''Statement'', PList [PDict
               [(''Effect'', PStr ''Allow''),
                (''Action'', PList [PStr ''s3:GetObject'', PStr ''s3:ListBucket'']),
                (''Resource'', PList [PStr (''arn:aws:s3:::'' @ bucket_name),
                                      PStr (''arn:aws:s3:::'' @ bucket_name @ ''/*'')]),
                (''Condition'', PDict [(''StringEquals'',
                     PDict [(''aws:ResourceAccount'', PStr (account_number g))])])]])]"

definition assume_role_policy_document :: pyval where
  "assume_role_policy_document =
     PDict [(''Version'', PStr ''2012-10-17''),
            (''Statement'', PList [PDict
               [(''Effect'', PStr ''Allow''),
                (''Principal'', PDict [(''Service'', PStr ''bedrock.amazonaws.com'')]),
                (''Action'', PStr ''sts:AssumeRole'')]])]"

definition getitem2 :: "pyval \<Rightarrow> string \<Rightarrow> string \<Rightarrow> exn + pyval" where
  "getitem2 v a b = bind_exn (getitem v (KStr a)) (\<lambda>w. getitem w (KStr b))"

definition create_bedrock_execution_role ::
  "utility_globals \<Rightarrow> (pyval \<Rightarrow> string) \<Rightarrow> (string \<Rightarrow> pyval \<Rightarrow> exn + pyval) \<Rightarrow> string
     \<Rightarrow> pyval logged" where
  "create_bedrock_execution_role g json_dumps iam_client bucket_name =
     then_log (invoke iam_client ''create_policy'' (PDict
        [(''PolicyName'', PStr (fm_policy_name g)),
         (''PolicyDocument'', PStr (json_dumps (foundation_model_policy_document g))),
         (''Description'', PStr ''Policy for accessing foundation model'')])) (\<lambda>fm_policy.
     then_log (invoke iam_client ''create_policy'' (PDict
        [(''PolicyName'', PStr (s3_policy_name g)),
         (''PolicyDocument'', PStr (json_dumps (s3_policy_document g bucket_name))),
         (''Description'', PStr ''Policy for reading documents from s3'')])) (\<lambda>s3_policy.
     then_log (invoke iam_client ''create_role'' (PDict
        [(''RoleName'', PStr (bedrock_execution_role_name g)),
         (''AssumeRolePolicyDocument'', PStr (json_dumps assume_role_policy_document)),
         (''Description'',
            PStr ''Amazon Bedrock Knowledge Base Execution Role for accessing OSS and S3''),
         (''MaxSessionDuration'', PInt 3600)])) (\<lambda>bedrock_kb_execution_role.
     then_log (silent (getitem2 bedrock_kb_execution_role ''Role'' ''Arn''))
        (\<lambda>bedrock_kb_execution_role_arn.
     then_log (silent (getitem2 s3_policy ''Policy'' ''Arn'')) (\<lambda>s3_policy_arn.
     then_log (silent (getitem2 fm_policy ''Policy'' ''Arn'')) (\<lambda>fm_policy_arn.
     then_log (silent (getitem2 bedrock_kb_execution_role ''Role'' ''RoleName'')) (\<lambda>role_name.
     then_log (invoke iam_client ''attach_role_policy'' (PDict
        [(''RoleName'', role_name), (''PolicyArn'', fm_policy_arn)])) (\<lambda>attached_fm.
     then_log (silent (getitem2 bedrock_kb_execution_role ''Role'' ''RoleName'')) (\<lambda>role_name.
     then_log (invoke iam_client ''attach_role_policy'' (PDict
        [(''RoleName'', role_name), (''PolicyArn'', s3_policy_arn)])) (\<lambda>attached_s3.
     silent (Inr bedrock_kb_execution_role)))))))))))"

text \<open>The keyword arguments of the five calls.\<close>

definition fm_request :: "utility_globals \<Rightarrow> (pyval \<Rightarrow> string) \<Rightarrow> pyval" where
  "fm_request g json_dumps = PDict
        [(''PolicyName'', PStr (fm_policy_name g)),
         (''PolicyDocument'', PStr (json_dumps (foundation_model_policy_document g))),
         (''Description'', PStr ''Policy for accessing foundation model'')]"

definition s3_request :: "utility_globals \<Rightarrow> (pyval \<Rightarrow> string) \<Rightarrow> string \<Rightarrow> pyval" where
  "s3_request g json_dumps bucket_name = PDict
        [(''PolicyName'', PStr (s3_policy_name g)),
         (''PolicyDocument'', PStr (json_dumps (s3_policy_document g bucket_name))),
         (''Description'', PStr ''Policy for reading documents from s3'')]"

definition role_request :: "utility_globals \<Rightarrow> (pyval \<Rightarrow> string) \<Rightarrow> pyval" where
  "role_request g json_dumps = PDict
        [(''RoleName'', PStr (bedrock_execution_role_name g)),
         (''AssumeRolePolicyDocument'', PStr (json_dumps assume_role_policy_document)),
         (''Description'',
            PStr ''Amazon Bedrock Knowledge Base Execution Role for accessing OSS and S3''),
         (''MaxSessionDuration'', PInt 3600)]"

definition attach_request :: "pyval \<Rightarrow> pyval \<Rightarrow> pyval" where
  "attach_request role_name policy_arn = PDict [(''RoleName'', role_name), (''PolicyArn'', policy_arn)]"

text \<open>An IAM service that creates what it is asked to create.\<close>

definition sample_globals :: utility_globals where
  "sample_globals =
     \<lparr>region_name = ''us-east-1'', account_number = ''123456789012'',
      fm_policy_name = ''FMPolicy_321'', s3_policy_name = ''S3Policy_321'',
      bedrock_execution_role_name = ''KBRole_321''\<rparr>"

definition sample_iam :: "string \<Rightarrow> pyval \<Rightarrow> exn + pyval" where
  "sample_iam operation kwargs =
     (if operation = ''create_policy'' then
        (case getitem kwargs (KStr ''PolicyName'') of
           Inr (PStr n) \<Rightarrow> Inr (PDict [(''Policy'',
              PDict [(''PolicyName'', PStr n), (''Arn'', PStr (''arn:aws:iam::123456789012:policy/'' @ n))])])
         | _ \<Rightarrow> Inl (ClientError ''ValidationError''))
      else if operation = ''create_role'' then
        (case getitem kwargs (KStr ''RoleName'') of
           Inr (PStr n) \<Rightarrow> Inr (PDict [(''Role'',
              PDict [(''RoleName'', PStr n), (''Arn'', PStr (''arn:aws:iam::123456789012:role/'' @ n))])])
         | _ \<Rightarrow> Inl (ClientError ''ValidationError''))
      else Inr (PDict []))"

definition sample_role :: pyval where
  "sample_role = PDict [(''Role'',
      PDict [(''RoleName'', PStr ''KBRole_321''),
             (''Arn'', PStr ''arn:aws:iam::123456789012:role/KBRole_321'')])]"

section \<open>Service clients and their retry configuration\<close>

text \<open>
  A client is described by how it was constructed: the service, the botocore
  \<^verbatim>\<open>Config\<close> passed as \<^verbatim>\<open>config=\<close> (if any) and the other keyword arguments. A
  \<^verbatim>\<open>Config\<close> may carry a retry policy; a client built without one is left to the
  SDK's default behaviour.
\<close>

record retry_policy =
  max_attempts :: nat
  mode :: string

record botocore_config =
  config_region_name :: pyval
  retries :: "retry_policy option"

record client =
  service_name :: string
  config :: "botocore_config option"
  client_kwargs :: pydict

definition boto3_client :: "string \<Rightarrow> pydict \<Rightarrow> client" where
  \<comment> \<open>\<^verbatim>\<open>boto3.client(service, **kwargs)\<close> and \<^verbatim>\<open>boto3.resource(service)\<close> without \<^verbatim>\<open>config=\<close>\<close>
  "boto3_client service kwargs = \<lparr>service_name = service, config = None, client_kwargs = kwargs\<rparr>"

text \<open>
  The clients that the notebooks build directly; \<open>region\<close> stands for the region read
  from the environment or the session.
\<close>

definition notebook_clients :: "pyval \<Rightarrow> client list" where
  "notebook_clients region =
     [boto3_client ''dynamodb'' [],
      boto3_client ''glue'' [(''region_name'', PStr ''us-east-1'')],
      boto3_client ''s3'' [],
      boto3_client ''bedrock'' [(''region_name'', region)],
      boto3_client ''bedrock-runtime'' [(''region_name'', region)],
      boto3_client ''bedrock'' [],
      boto3_client ''location'' []]"

text \<open>
  \<^verbatim>\<open>get_bedrock_client\<close> reads the region and the profile from the environment,
  builds a \<^verbatim>\<open>Config\<close> with a retry policy, opens a session, optionally assumes a role
  through STS, and creates the client with that \<^verbatim>\<open>Config\<close>. The environment
  variables, \<^verbatim>\<open>boto3.Session\<close>, \<^verbatim>\<open>sts.assume_role\<close> and \<^verbatim>\<open>session.client\<close>
  are the fields of \<open>aws\<close>; each of the three calls may raise.
\<close>

record aws_env =
  environ :: "string \<Rightarrow> string option"
  new_session :: "pydict \<Rightarrow> exn + unit"
  sts_assume_role :: "pyval \<Rightarrow> exn + pyval"
  session_client :: "client \<Rightarrow> exn + unit"

definition opt_str :: "string option \<Rightarrow> pyval" where
  "opt_str s = (case s of None \<Rightarrow> PNone | Some x \<Rightarrow> PStr x)"

definition truthy_str :: "string option \<Rightarrow> bool" where
  "truthy_str s = (case s of None \<Rightarrow> False | Some x \<Rightarrow> x \<noteq> [])"

definition get_bedrock_client ::
  "aws_env \<Rightarrow> string option \<Rightarrow> string option \<Rightarrow> bool option \<Rightarrow> exn + client" where
  "get_bedrock_client aws assumed_role region runtime =
     (let target_region =
            (case region of
               None \<Rightarrow> (case environ aws ''AWS_REGION'' of
                           None \<Rightarrow> environ aws ''AWS_DEFAULT_REGION''
                         | Some r \<Rightarrow> Some r)
             | Some r \<Rightarrow> Some r);
          session_kwargs = [(''region_name'', opt_str target_region)];
          client_kwargs = session_kwargs;
          profile_name = environ aws ''AWS_PROFILE'';
          session_kwargs =
            (if truthy_str profile_name
             then session_kwargs @ [(''profile_name'', opt_str profile_name)]
             else session_kwargs);
          retry_config =
            \<lparr>config_region_name = opt_str target_region,
             retries = Some \<lparr>max_attempts = 10, mode = ''standard''\<rparr>\<rparr>
      in bind_exn (new_session aws session_kwargs) (\<lambda>session.
         bind_exn
           (if truthy_str assumed_role then
              bind_exn (sts_assume_role aws (PDict
                  [(''RoleArn'', opt_str assumed_role),
                   (''RoleSessionName'', PStr ''langchain-llm-1'')])) (\<lambda>response.
              bind_exn (getitem2 response ''Credentials'' ''AccessKeyId'') (\<lambda>access_key.
              bind_exn (getitem2 response ''Credentials'' ''SecretAccessKey'') (\<lambda>secret_key.
              bind_exn (getitem2 response ''Credentials'' ''SessionToken'') (\<lambda>token.
              Inr (client_kwargs @
                   [(''aws_access_key_id'', access_key),
                    (''aws_secret_access_key'', secret_key),
                    (''aws_session_token'', token)])))))
            else Inr client_kwargs) (\<lambda>client_kwargs.
         let service_name = (if runtime = Some True then ''bedrock-runtime'' else ''bedrock'');
             bedrock_client =
               \<lparr>service_name = service_name, config = Some retry_config,
                client_kwargs = client_kwargs\<rparr>
         in bind_exn (session_client aws bedrock_client) (\<lambda>created. Inr bedrock_client))))"

text \<open>The environment of the metadata notebook: only \<^verbatim>\<open>AWS_DEFAULT_REGION\<close> is set.\<close>

definition sample_aws :: aws_env where
  "sample_aws =
     \<lparr>environ = (\<lambda>v. if v = ''AWS_DEFAULT_REGION'' then Some ''us-east-1'' else None),
      new_session = (\<lambda>kwargs. Inr ()),
      sts_assume_role = (\<lambda>kwargs. Inl (ClientError ''AccessDenied'')),
      session_client = (\<lambda>c. Inr ())\<rparr>"

section \<open>Python strings\<close>

text \<open>
  \<^verbatim>\<open>sub in s\<close>, \<^verbatim>\<open>s.split(sep)\<close>, \<^verbatim>\<open>s.strip()\<close> and \<^verbatim>\<open>s.lower()\<close> on
  strings of code points below 256. \<open>split_py\<close> scans from the left and cuts at each
  occurrence of the separator that does not overlap the one before; the separators of the
  notebooks are non-empty literals (Python rejects an empty one). Whitespace is what
  \<^verbatim>\<open>str.isspace\<close> accepts in that range, and \<open>lower_char\<close> maps the upper-case
  letters of that range to their lower-case forms.
\<close>

fun py_in :: "string \<Rightarrow> string \<Rightarrow> bool" where
  "py_in sub [] = (sub = [])"
| "py_in sub (c # cs) = (prefix sub (c # cs) \<or> py_in sub cs)"

fun split_py :: "string \<Rightarrow> string \<Rightarrow> string list" where
  "split_py sep [] = [[]]"
| "split_py sep (c # cs) =
     (if sep \<noteq> [] \<and> prefix sep (c # cs)
      then [] # split_py sep (drop (length sep) (c # cs))
      else (case split_py sep cs of
              [] \<Rightarrow> [[c]]
            | p # ps \<Rightarrow> (c # p) # ps))"

definition is_space :: "char \<Rightarrow> bool" where
  "is_space c = (let n = (of_char c :: nat)
     in (9 \<le> n \<and> n \<le> 13) \<or> (28 \<le> n \<and> n \<le> 32) \<or> n = 133 \<or> n = 160)"

definition strip :: "string \<Rightarrow> string" where
  "strip s = rev (dropWhile is_space (rev (dropWhile is_space s)))"

definition lower_char :: "char \<Rightarrow> char" where
  "lower_char c = (let n = (of_char c :: nat)
     in if (65 \<le> n \<and> n \<le> 90) \<or> (192 \<le> n \<and> n \<le> 222 \<and> n \<noteq> 215)
        then char_of (n + 32) else c)"

definition lower :: "string \<Rightarrow> string" where
  "lower s = map lower_char s"


text \<open>
  \<open>first_at sep s pre post\<close>: the leftmost occurrence of \<open>sep\<close> in \<open>s\<close> starts right
  after \<open>pre\<close> and is followed by \<open>post\<close>. \<open>text_before sep s p\<close>: \<open>p\<close> is the text of
  \<open>s\<close> before the leftmost occurrence of \<open>sep\<close>, or all of \<open>s\<close> if there is none.
\<close>

definition first_at :: "string \<Rightarrow> string \<Rightarrow> string \<Rightarrow> string \<Rightarrow> bool" where
  "first_at sep s pre post \<longleftrightarrow> s = pre @ sep @ post \<and> \<not> py_in sep (pre @ butlast sep)"

definition text_before :: "string \<Rightarrow> string \<Rightarrow> string \<Rightarrow> bool" where
  "text_before sep s p \<longleftrightarrow> (if py_in sep s then \<exists>post. first_at sep s p post else p = s)"

section \<open>The glossary parser\<close>

text \<open>
  \<^verbatim>\<open>convert_glossary_to_dict\<close> walks over the lines of the glossary. One round of its
  loop is \<open>glossary_line\<close>: it yields the entry that the round appends, if any, or the
  \<^verbatim>\<open>IndexError\<close> of \<^verbatim>\<open>terms_def[1]\<close>.
\<close>

definition glossary_line :: "string \<Rightarrow> exn + pyval option" where
  "glossary_line raw =
     (let line = strip raw in
      if line \<noteq> [] then
        (let terms_def = split_py '': '' line in
         bind_exn (py_index terms_def 0) (\<lambda>first. let current_term = lower first in
         bind_exn (py_index terms_def 1) (\<lambda>current_definition.
         if current_term \<noteq> []
         then Inr (Some (PDict [(''term'', PStr (lower current_term)),
                                (''term_definition'', PStr current_definition)]))
         else Inr None)))
      else Inr None)"

fun glossary_loop :: "string list \<Rightarrow> pyval list \<Rightarrow> exn + pyval list" where
  "glossary_loop [] terms = Inr terms"
| "glossary_loop (raw # rest) terms =
     bind_exn (glossary_line raw) (\<lambda>appended.
       glossary_loop rest (case appended of None \<Rightarrow> terms | Some entry \<Rightarrow> terms @ [entry]))"

definition convert_glossary_to_dict :: "string \<Rightarrow> exn + pyval list" where
  "convert_glossary_to_dict glossary = glossary_loop (split_py [CHR 0x0A] glossary) []"

definition glossary_lines :: "string \<Rightarrow> string list" where
  "glossary_lines glossary = filter (\<lambda>l. l \<noteq> []) (map strip (split_py [CHR 0x0A] glossary))"

definition entry_of :: "string \<Rightarrow> pyval \<Rightarrow> bool" where
  "entry_of l e \<longleftrightarrow>
     (\<exists>t post d. first_at '': '' l t post \<and> text_before '': '' post d
        \<and> e = PDict [(''term'', PStr (lower t)), (''term_definition'', PStr d)])"


text \<open>An excerpt of the sample glossary of the notebook.\<close>

definition sample_glossary :: string where
  "sample_glossary =
     [CHR 0x0A] @ ''dcm: Disclosure Committee Members '' @ [CHR 0x0A]
     @ ''htm: held-to-maturity'' @ [CHR 0x0A]
     @ ''DCMs: Disclosure Committee Members'' @ [CHR 0x0A]"

section \<open>The weather agent notebook: dispatch and the retriever step\<close>

text \<open>
  \<^verbatim>\<open>call_function\<close> looks the tool name up in \<^verbatim>\<open>globals()\<close> and calls what it
  finds with the parameters as keyword arguments. The namespace has two parts.
  \<open>notebook_globals\<close> lists the names that the cells bind at top level before the first
  call of \<^verbatim>\<open>single_retriever_step\<close>, in order, each marked as callable (a function or
  a class) or not. Every other name is looked up in \<open>other_globals\<close>, a field of the
  world below: what the interpreter and IPython bind (\<^verbatim>\<open>exit\<close>, \<^verbatim>\<open>quit\<close>,
  \<^verbatim>\<open>get_ipython\<close>, \<^verbatim>\<open>__name__\<close>, \<^verbatim>\<open>In\<close>, \<^verbatim>\<open>Out\<close>, ...) and what
  cells that ran earlier have left behind (\<^verbatim>\<open>done\<close>, \<^verbatim>\<open>i\<close>). A binding of the
  notebook shadows one of the same name in \<open>other_globals\<close>.
\<close>

datatype global = Callable | Object

definition notebook_globals :: "(string \<times> global) list" where
  "notebook_globals =
     [(''boto3'', Object), (''os'', Object), (''Markdown'', Callable), (''display'', Callable),
      (''Pretty'', Callable), (''region'', Object), (''boto3_bedrock'', Object),
      (''requests'', Object), (''place_index_name'', Object), (''location_client'', Object),
      (''get_lat_long'', Callable), (''get_weather'', Callable), (''call_function'', Callable),
      (''place'', Object), (''lat_long_response'', Object), (''weather_response'', Object),
      (''get_weather_description'', Object), (''get_lat_long_description'', Object),
      (''list_of_tools_specs'', Object), (''tools_string'', Object),
      (''PromptTemplate'', Callable), (''TOOL_TEMPLATE'', Object), (''TOOL_PROMPT'', Object),
      (''xmltodict'', Object), (''json'', Object), (''invoke_model'', Callable),
      (''single_retriever_step'', Callable),
      (''user_input'', Object), (''next_step'', Object), (''output'', Object)]"

text \<open>
  What lies outside the cells is the record \<open>world\<close>: the rest of the global
  namespace, the place index, the weather service (\<^verbatim>\<open>requests.get(url).json()\<close>),
  the effect of calling any global callable other than the two tools,
  \<^verbatim>\<open>xmltodict.parse\<close>, and \<^verbatim>\<open>str\<close> on values that are not strings.
\<close>

record world =
  other_globals :: "string \<Rightarrow> global option"
  search_place :: "pyval \<Rightarrow> exn + pyval"
  http_get_json :: "string \<Rightarrow> exn + pyval"
  run_global :: "string \<Rightarrow> pydict \<Rightarrow> exn + pyval"
  xml_parse :: "string \<Rightarrow> exn + pyval"
  str_of :: "pyval \<Rightarrow> string"

definition format_value :: "world \<Rightarrow> pyval \<Rightarrow> string" where
  "format_value w v = (case v of PStr s \<Rightarrow> s | _ \<Rightarrow> str_of w v)"

text \<open>
  \<^verbatim>\<open>func(**parameters)\<close> binds the keyword arguments to the parameter names; a
  missing or an unexpected keyword is a \<^verbatim>\<open>TypeError\<close>.
\<close>

definition bind_args :: "string list \<Rightarrow> pydict \<Rightarrow> exn + pyval list" where
  "bind_args names kwargs =
     (if list_all (\<lambda>n. map_of kwargs n \<noteq> None) names
         \<and> list_all (\<lambda>k. k \<in> set names) (map fst kwargs)
      then Inr (map (\<lambda>n. case map_of kwargs n of None \<Rightarrow> PNone | Some v \<Rightarrow> v) names)
      else Inl TypeError)"

definition get_weather :: "world \<Rightarrow> pyval \<Rightarrow> pyval \<Rightarrow> exn + pyval" where
  "get_weather w latitude longitude =
     (let url = ''https://api.open-meteo.com/v1/forecast?latitude='' @ format_value w latitude
                @ ''&longitude='' @ format_value w longitude @ ''&current_weather=true''
      in http_get_json w url)"

definition run_callable :: "world \<Rightarrow> string \<Rightarrow> pyval \<Rightarrow> exn + pyval" where
  "run_callable w name kwargs =
     (case kwargs of
        PDict kws \<Rightarrow>
          if name = ''get_lat_long'' then
            bind_exn (bind_args [''place''] kws) (\<lambda>args.
              case args of [place] \<Rightarrow> get_lat_long (search_place w) place | _ \<Rightarrow> Inl TypeError)
          else if name = ''get_weather'' then
            bind_exn (bind_args [''latitude'', ''longitude''] kws) (\<lambda>args.
              case args of [latitude, longitude] \<Rightarrow> get_weather w latitude longitude
              | _ \<Rightarrow> Inl TypeError)
          else run_global w name kws
      | _ \<Rightarrow> Inl TypeError)"

text \<open>
  The log of \<open>call_function\<close> holds the call \<^verbatim>\<open>func(**parameters)\<close> that it makes
  itself. What the callee does, a further lookup included when the callee is
  \<^verbatim>\<open>call_function\<close> or \<^verbatim>\<open>single_retriever_step\<close>, belongs to the callee's run.
\<close>

definition globals_lookup :: "world \<Rightarrow> string \<Rightarrow> global option" where
  "globals_lookup w name =
     (case map_of notebook_globals name of
        None \<Rightarrow> other_globals w name
      | Some g \<Rightarrow> Some g)"

definition call_function :: "world \<Rightarrow> pyval \<Rightarrow> pyval \<Rightarrow> pyval logged" where
  "call_function w tool_name parameters =
     (case tool_name of
        PStr name \<Rightarrow>
          (case globals_lookup w name of
             None \<Rightarrow> silent (Inl KeyError)
           | Some Object \<Rightarrow> silent (Inl TypeError)
           | Some Callable \<Rightarrow>
               (case parameters of
                  PDict kwargs \<Rightarrow> invoke (run_callable w) name (PDict kwargs)
                | _ \<Rightarrow> silent (Inl TypeError)))
      | PList xs \<Rightarrow> silent (Inl TypeError)
      | PDict kvs \<Rightarrow> silent (Inl TypeError)
      | _ \<Rightarrow> silent (Inl KeyError))"

definition nl :: string where
  "nl = [CHR 0x0A]"

definition single_retriever_step :: "world \<Rightarrow> string \<Rightarrow> string \<Rightarrow> (bool \<times> string) logged" where
  "single_retriever_step w prompt output =
     (if py_in ''<answer>'' output then
        then_log (silent (py_index (split_py ''<answer>'' output) 1)) (\<lambda>answer.
        then_log (silent (py_index (split_py ''</answer>'' answer) 0)) (\<lambda>answer.
        silent (Inr (True, answer))))
      else
        then_log (silent (py_index (split_py ''<function_calls>'' output) 1)) (\<lambda>function_xml.
        then_log (silent (py_index (split_py ''</function_calls>'' function_xml) 0)) (\<lambda>function_xml.
        then_log (silent (xml_parse w function_xml)) (\<lambda>function_dict.
        then_log (silent (getitem2 function_dict ''invoke'' ''tool_name'')) (\<lambda>func_name.
        then_log (silent (getitem2 function_dict ''invoke'' ''parameters'')) (\<lambda>parameters.
        then_log (call_function w func_name parameters) (\<lambda>func_response.
        let func_response_str = nl @ nl @ ''Human: Here is the result from your function call'' @ nl @ nl;
            func_response_str = func_response_str @ ''<function_results>'' @ nl
               @ format_value w func_response @ nl @ ''</function_results>'';
            func_response_str = func_response_str @ nl @ nl
               @ ''If you know the answer, say it. If not, what is the next step?''
               @ nl @ nl @ ''Assistant:'';
            prompt = prompt @ output @ func_response_str
        in silent (Inr (False, prompt)))))))))"

text \<open>
  The text that a step appends after the model output, and the names of
  \<open>notebook_globals\<close> that are callable. \<open>block_between opening closing s body\<close>:
  \<open>body\<close> is the text of \<open>s\<close> after the leftmost \<open>opening\<close>, up to whichever comes first:
  the next \<open>closing\<close>, the next \<open>opening\<close>, or the end of \<open>s\<close>.
\<close>

definition function_results :: "world \<Rightarrow> pyval \<Rightarrow> string" where
  "function_results w func_response =
     nl @ nl @ ''Human: Here is the result from your function call'' @ nl @ nl
     @ ''<function_results>'' @ nl @ format_value w func_response @ nl @ ''</function_results>''
     @ nl @ nl @ ''If you know the answer, say it. If not, what is the next step?''
     @ nl @ nl @ ''Assistant:''"


definition block_between :: "string \<Rightarrow> string \<Rightarrow> string \<Rightarrow> string \<Rightarrow> bool" where
  "block_between opening closing s body \<longleftrightarrow>
     (\<exists>pre post seg. first_at opening s pre post \<and> text_before opening post seg
        \<and> text_before closing seg body)"

text \<open>Sample model outputs, and a world that answers them.\<close>

definition lat_long_output :: string where
  "lat_long_output =
     ''First: <function_calls><invoke><tool_name>get_lat_long</tool_name>''
     @ ''<parameters><place>Las Vegas</place></parameters></invoke></function_calls>''"


definition sample_parse :: "string \<Rightarrow> exn + pyval" where
  "sample_parse xml =
     (if xml = ''<invoke><tool_name>get_lat_long</tool_name>''
               @ ''<parameters><place>Las Vegas</place></parameters></invoke>''
      then Inr (PDict [(''invoke'', PDict [(''tool_name'', PStr ''get_lat_long''),
                  (''parameters'', PDict [(''place'', PStr ''Las Vegas'')])])])
      else if xml = ''<invoke><tool_name>invoke_model</tool_name>''
               @ ''<parameters><prompt>hi</prompt></parameters></invoke>''
      then Inr (PDict [(''invoke'', PDict [(''tool_name'', PStr ''invoke_model''),
                  (''parameters'', PDict [(''prompt'', PStr ''hi'')])])])
      else Inl (OtherException ''ExpatError''))"

definition sample_world :: world where
  "sample_world =
     \<lparr>other_globals = (\<lambda>name.
          if name = ''exit'' \<or> name = ''quit'' \<or> name = ''get_ipython'' then Some Callable
          else if name = ''__name__'' \<or> name = ''In'' \<or> name = ''Out'' then Some Object
          else None),
      search_place = (\<lambda>place. Inr (PDict [(''Results'', PList [PDict [(''Place'',
          PDict [(''Geometry'', PDict [(''Point'', PList [PInt (-115), PInt 36])])])]])])),
      http_get_json = (\<lambda>url. Inr (PDict [(''current_weather'', PDict [(''temperature'', PInt 37)])])),
      run_global = (\<lambda>name kwargs. Inr (PStr ''done'')),
      xml_parse = sample_parse,
      str_of = (\<lambda>v. ''{}'')\<rparr>"

section \<open>Properties\<close>

lemma bind_exn_simps [simp]:
  "bind_exn (Inl e) f = Inl e"
  "bind_exn (Inr x) f = f x"
  by (simp_all add: bind_exn_def)

lemma bind_exn_Inr: "bind_exn m f = Inr y \<Longrightarrow> \<exists>x. m = Inr x \<and> f x = Inr y"
  by (cases m) simp_all

subsection \<open>The place lookup never raises\<close>

lemma get_lat_long_try_raises:
  "search place = Inl e \<Longrightarrow> get_lat_long_try search place = Inl e"
  by (simp add: get_lat_long_try_def)

lemma get_lat_long_try_no_results:
  assumes "search place = Inr response"
    and "getitem response (KStr ''Results'') = Inr (PList [])"
  shows "get_lat_long_try search place = Inl IndexError"
  using assms by (simp add: get_lat_long_try_def py_index_def)

text \<open>
  C8. \<^verbatim>\<open>get_lat_long\<close> never propagates an exception: whatever the place index
  answers for the place, the function returns a dictionary with exactly the keys
  "latitude" and "longitude"; when the lookup raises, or answers with an empty list of
  results, both values are the string "0".
\<close>

theorem get_lat_long_total:
  "\<exists>lat lon.
      get_lat_long search place = Inr (PDict [(''latitude'', lat), (''longitude'', lon)])
    \<and> (((\<exists>e. search place = Inl e)
         \<or> (\<exists>response. search place = Inr response
               \<and> getitem response (KStr ''Results'') = Inr (PList [])))
        \<longrightarrow> lat = PStr ''0'' \<and> lon = PStr ''0'')"
proof (cases "get_lat_long_try search place")
  case (Inl e)
  then show ?thesis by (simp add: get_lat_long_def)
next
  case (Inr p)
  obtain lon lat where p: "p = (lon, lat)" by (cases p)
  have no_raise: "\<not> (\<exists>e. search place = Inl e)"
    using Inr get_lat_long_try_raises [of search place] by auto
  have some_result: "\<not> (\<exists>response. search place = Inr response
      \<and> getitem response (KStr ''Results'') = Inr (PList []))"
    using Inr get_lat_long_try_no_results [of search place] by auto
  from Inr p have "get_lat_long search place
      = Inr (PDict [(''latitude'', lat), (''longitude'', lon)])"
    by (simp add: get_lat_long_def)
  with no_raise some_result show ?thesis by blast
qed

theorem get_lat_long_total_witness:
  "get_lat_long (\<lambda>p. Inl (ClientError ''ResourceNotFoundException'')) (PStr ''Las Vegas'')
     = Inr (PDict [(''latitude'', PStr ''0''), (''longitude'', PStr ''0'')])
   \<and> get_lat_long (\<lambda>p. Inr (PDict [(''Results'', PList [])])) (PStr ''Atlantis'')
     = Inr (PDict [(''latitude'', PStr ''0''), (''longitude'', PStr ''0'')])"
  using get_lat_long_total [of "\<lambda>p. Inl (ClientError ''ResourceNotFoundException'')" "PStr ''Las Vegas''"]
    get_lat_long_total [of "\<lambda>p. Inr (PDict [(''Results'', PList [])])" "PStr ''Atlantis''"]
  by auto

subsection \<open>Already-exists errors are swallowed, all others propagate\<close>

text \<open>
  C6. The table-creation cell completes without error exactly when
  \<^verbatim>\<open>create_table\<close> succeeds or raises a \<^verbatim>\<open>ClientError\<close> with code
  "ResourceInUseException"; every other exception leaves the cell unchanged. The
  place-index cell completes without error when \<^verbatim>\<open>create_place_index\<close> succeeds or
  raises \<^verbatim>\<open>ConflictException\<close>, and propagates every other exception.
\<close>

theorem setup_cells_idempotent:
  "(create_table_cell create_table = Inr ()
      \<longleftrightarrow> (\<exists>r. create_dynamo_table create_table ''glossary-2'' = Inr r)
        \<or> create_dynamo_table create_table ''glossary-2''
            = Inl (ClientError ''ResourceInUseException''))
   \<and> (\<forall>e. create_dynamo_table create_table ''glossary-2'' = Inl e
          \<and> e \<noteq> ClientError ''ResourceInUseException''
        \<longrightarrow> create_table_cell create_table = Inl e)
   \<and> (create_place_index_cell create_place_index = Inr ()
      \<longleftrightarrow> (\<exists>r. create_place_index
                 (PDict [(''DataSource'', PStr ''Esri''), (''IndexName'', PStr place_index_name)])
               = Inr r)
        \<or> create_place_index
             (PDict [(''DataSource'', PStr ''Esri''), (''IndexName'', PStr place_index_name)])
            = Inl (ClientError ''ConflictException''))
   \<and> (\<forall>e. create_place_index
             (PDict [(''DataSource'', PStr ''Esri''), (''IndexName'', PStr place_index_name)])
            = Inl e
          \<and> e \<noteq> ClientError ''ConflictException''
        \<longrightarrow> create_place_index_cell create_place_index = Inl e)"
  by (auto simp: create_table_cell_def create_place_index_cell_def
      split: sum.splits exn.splits if_splits)

theorem setup_cells_idempotent_witness:
  "create_table_cell (\<lambda>req. Inl (ClientError ''ResourceInUseException'')) = Inr ()
   \<and> create_table_cell (\<lambda>req. Inl (ClientError ''AccessDeniedException''))
       = Inl (ClientError ''AccessDeniedException'')
   \<and> create_place_index_cell (\<lambda>req. Inl (ClientError ''ConflictException'')) = Inr ()
   \<and> create_place_index_cell (\<lambda>req. Inl (OtherException ''EndpointConnectionError''))
       = Inl (OtherException ''EndpointConnectionError'')"
  using setup_cells_idempotent
    [of "\<lambda>req. Inl (ClientError ''ResourceInUseException'')"
        "\<lambda>req. Inl (ClientError ''ConflictException'')"]
    setup_cells_idempotent
    [of "\<lambda>req. Inl (ClientError ''AccessDeniedException'')"
        "\<lambda>req. Inl (OtherException ''EndpointConnectionError'')"]
  by (simp add: create_dynamo_table_def)

subsection \<open>The crawler polling loop\<close>

lemma waiting_0: "waiting g 0 = poll_start"
  by (simp add: waiting_def poll_start_def)

lemma waiting_step:
  assumes "busy g n"
  shows "poll_step g (Running (waiting g n)) (Running (waiting g (Suc n)))"
proof -
  from assms obtain st where st: "crawler_state (g n) = Inr st" "st \<noteq> PStr ''READY''"
    by (auto simp: busy_def split: sum.splits)
  have "poll_step g (Running (waiting g n))
          (Running ((observed st (waiting g n))\<lparr>slept := slept (waiting g n) + 10\<rparr>))"
    by (rule poll_sleep) (use st in \<open>simp_all add: waiting_def\<close>)
  moreover have "(observed st (waiting g n))\<lparr>slept := slept (waiting g n) + 10\<rparr> = waiting g (Suc n)"
    using st by (simp add: observed_def waiting_def)
  ultimately show ?thesis by simp
qed

lemma waiting_reached:
  "(\<forall>k<n. busy g k) \<Longrightarrow> (poll_step g)\<^sup>*\<^sup>* (Running poll_start) (Running (waiting g n))"
proof (induction n)
  case 0
  then show ?case by (simp add: waiting_0)
next
  case (Suc n)
  then have "(poll_step g)\<^sup>*\<^sup>* (Running poll_start) (Running (waiting g n))" by simp
  moreover have "poll_step g (Running (waiting g n)) (Running (waiting g (Suc n)))"
    using Suc.prems by (simp add: waiting_step)
  ultimately show ?case by (rule rtranclp.rtrancl_into_rtrancl)
qed

lemma ready_step:
  assumes "crawler_state (g n) = Inr (PStr ''READY'')"
  shows "poll_step g (Running (waiting g n)) (Finished (finished_at n))"
proof -
  have "poll_step g (Running (waiting g n)) (Finished (observed (PStr ''READY'') (waiting g n)))"
    by (rule poll_ready) (use assms in \<open>simp_all add: waiting_def\<close>)
  moreover have "observed (PStr ''READY'') (waiting g n) = finished_at n"
    by (simp add: observed_def waiting_def finished_at_def)
  ultimately show ?thesis by simp
qed

lemma polls_waiting [simp]: "polls (waiting g n) = n"
  by (simp add: waiting_def)

lemma poll_inv_step:
  assumes "poll_step g c c'" and "poll_inv g c"
  shows "poll_inv g c'"
  using assms
proof (induction rule: poll_step.induct)
  case (poll_raise s e)
  then show ?case by (auto simp: poll_inv_def)
next
  case (poll_ready s st)
  then obtain n where n: "\<forall>k<n. busy g k" "s = waiting g n"
    by (auto simp: poll_inv_def)
  have "observed st s = finished_at n"
    using poll_ready(2) n(2) by (simp add: observed_def waiting_def finished_at_def)
  moreover have "crawler_state (g n) = Inr (PStr ''READY'')"
    using poll_ready(1,2) n(2) by simp
  ultimately show ?case using n(1) by (auto simp: poll_inv_def)
next
  case (poll_sleep s st)
  then obtain n where n: "\<forall>k<n. busy g k" "s = waiting g n"
    by (auto simp: poll_inv_def)
  have st: "crawler_state (g n) = Inr st" using poll_sleep(1) n(2) by simp
  have "(observed st s)\<lparr>slept := slept s + 10\<rparr> = waiting g (Suc n)"
    using st n(2) by (simp add: observed_def waiting_def)
  moreover have "busy g n" using st poll_sleep(2) by (simp add: busy_def)
  then have "\<forall>k<Suc n. busy g k" using n(1) by (simp add: less_Suc_eq)
  ultimately show ?case unfolding poll_inv_def by (simp only: poll_config.case) blast
qed

lemma poll_inv_steps:
  assumes "(poll_step g)\<^sup>*\<^sup>* c c'" and "poll_inv g c"
  shows "poll_inv g c'"
  using assms by (induction rule: rtranclp_induct) (auto intro: poll_inv_step)

lemma poll_inv_start: "poll_inv g (Running poll_start)"
  unfolding poll_inv_def by (simp only: poll_config.case) (metis waiting_0 not_less_zero)

lemma busy_forever_running:
  assumes "\<forall>k. busy g k" and "poll_inv g c"
  shows "\<exists>n. c = Running (waiting g n)"
proof (cases c)
  case (Running s)
  then show ?thesis using assms(2) by (auto simp: poll_inv_def)
next
  case (Finished s)
  then obtain n where "crawler_state (g n) = Inr (PStr ''READY'')"
    using assms(2) by (auto simp: poll_inv_def)
  moreover have "busy g n" using assms(1) by simp
  ultimately show ?thesis by (simp add: busy_def)
next
  case (Raised e)
  then obtain n where "crawler_state (g n) = Inl e"
    using assms(2) by (auto simp: poll_inv_def)
  moreover have "busy g n" using assms(1) by simp
  ultimately show ?thesis by (simp add: busy_def)
qed

text \<open>
  C3. The crawler polling loop leaves through its \<^verbatim>\<open>break\<close> only upon observing
  "READY": started in its initial state, it finishes exactly when some poll \<open>n\<close> returns
  "READY" after \<open>n\<close> polls that returned other states, and it finishes at that poll,
  having slept ten seconds after each of the \<open>n\<close> earlier polls. While every poll returns
  a state other than "READY" the loop never terminates: every configuration it reaches is
  still running and has a next step.
\<close>

theorem crawler_loop_exits_on_ready:
  "((poll_step get_crawler)\<^sup>*\<^sup>* (Running poll_start) (Finished s')
      \<longleftrightarrow> (\<exists>n. (\<forall>k<n. busy get_crawler k)
              \<and> crawler_state (get_crawler n) = Inr (PStr ''READY'')
              \<and> s' = finished_at n))
   \<and> ((\<forall>k. busy get_crawler k) \<longrightarrow>
        (\<forall>c. (poll_step get_crawler)\<^sup>*\<^sup>* (Running poll_start) c
           \<longrightarrow> (\<exists>s. c = Running s) \<and> (\<exists>c'. poll_step get_crawler c c')))"
proof (intro conjI iffI impI allI)
  assume "(poll_step get_crawler)\<^sup>*\<^sup>* (Running poll_start) (Finished s')"
  then have "poll_inv get_crawler (Finished s')"
    using poll_inv_start by (rule poll_inv_steps)
  then show "\<exists>n. (\<forall>k<n. busy get_crawler k)
              \<and> crawler_state (get_crawler n) = Inr (PStr ''READY'')
              \<and> s' = finished_at n"
    by (simp add: poll_inv_def)
next
  assume "\<exists>n. (\<forall>k<n. busy get_crawler k)
              \<and> crawler_state (get_crawler n) = Inr (PStr ''READY'')
              \<and> s' = finished_at n"
  then obtain n where n: "\<forall>k<n. busy get_crawler k"
     "crawler_state (get_crawler n) = Inr (PStr ''READY'')" "s' = finished_at n" by blast
  have "(poll_step get_crawler)\<^sup>*\<^sup>* (Running poll_start) (Running (waiting get_crawler n))"
    using n(1) by (rule waiting_reached)
  moreover have "poll_step get_crawler (Running (waiting get_crawler n)) (Finished s')"
    using n(2,3) by (simp add: ready_step)
  ultimately show "(poll_step get_crawler)\<^sup>*\<^sup>* (Running poll_start) (Finished s')"
    by (rule rtranclp.rtrancl_into_rtrancl)
next
  fix c
  assume all: "\<forall>k. busy get_crawler k"
    and "(poll_step get_crawler)\<^sup>*\<^sup>* (Running poll_start) c"
  then have "poll_inv get_crawler c"
    using poll_inv_start by (blast intro: poll_inv_steps)
  with all obtain n where c: "c = Running (waiting get_crawler n)"
    using busy_forever_running by blast
  then show "\<exists>s. c = Running s" by simp
  have "poll_step get_crawler c (Running (waiting get_crawler (Suc n)))"
    unfolding c using all by (simp add: waiting_step)
  then show "\<exists>c'. poll_step get_crawler c c'" by blast
qed

theorem crawler_loop_exits_on_ready_witness:
  "(poll_step sample_crawler)\<^sup>*\<^sup>* (Running poll_start)
      (Finished \<lparr>polls = 3, slept = 20, state_previous = Some (PStr ''READY'')\<rparr>)
   \<and> \<not> (poll_step sample_crawler)\<^sup>*\<^sup>* (Running poll_start)
      (Finished \<lparr>polls = 1, slept = 0, state_previous = Some (PStr ''READY'')\<rparr>)"
proof -
  have busy: "\<forall>k<2. busy sample_crawler k"
    by (simp add: busy_def crawler_state_def sample_crawler_def)
  have ready: "crawler_state (sample_crawler 2) = Inr (PStr ''READY'')"
    by (simp add: crawler_state_def sample_crawler_def)
  have fin: "\<lparr>polls = 3, slept = 20, state_previous = Some (PStr ''READY'')\<rparr> = finished_at 2"
    by (simp add: finished_at_def)
  have first: "\<not> (\<exists>n. (\<forall>k<n. busy sample_crawler k)
              \<and> crawler_state (sample_crawler n) = Inr (PStr ''READY'')
              \<and> \<lparr>polls = 1, slept = 0, state_previous = Some (PStr ''READY'')\<rparr> = finished_at n)"
    by (auto simp: finished_at_def crawler_state_def sample_crawler_def)
  have reach: "\<exists>n. (\<forall>k<n. busy sample_crawler k)
              \<and> crawler_state (sample_crawler n) = Inr (PStr ''READY'')
              \<and> finished_at 2 = finished_at n"
    using busy ready by (intro exI [of _ 2]) simp
  have "(poll_step sample_crawler)\<^sup>*\<^sup>* (Running poll_start) (Finished (finished_at 2))"
    using crawler_loop_exits_on_ready [of sample_crawler "finished_at 2", THEN conjunct1] reach
    by (rule iffD2)
  moreover have "\<not> (poll_step sample_crawler)\<^sup>*\<^sup>* (Running poll_start)
      (Finished \<lparr>polls = 1, slept = 0, state_previous = Some (PStr ''READY'')\<rparr>)"
    using crawler_loop_exits_on_ready [of sample_crawler
        "\<lparr>polls = 1, slept = 0, state_previous = Some (PStr ''READY'')\<rparr>", THEN conjunct1] first
    by simp
  ultimately show ?thesis by (simp add: fin)
qed

subsection \<open>The paginated scan\<close>

lemma map_exn_all2:
  "list_all2 (\<lambda>x y. f x = Inr y) xs ys \<Longrightarrow> map_exn f xs = Inr ys"
  by (induction xs ys rule: list_all2_induct) simp_all

lemma page_has_terms: "page_has p ts \<Longrightarrow> page_terms p = Inr ts"
  by (auto simp: page_has_def page_terms_def map_exn_all2)

lemma scan_more_pages:
  assumes "case map_of p ''LastEvaluatedKey'' of
         None \<Rightarrow> ps = []
       | Some k' \<Rightarrow> scan_pages scan (length reqs) (Some k') ps"
    and "list_all2 page_has ps tss"
  shows "scan_more scan reqs p acc
     = Some \<lparr>requests = reqs @ follow_ups (p # ps), outcome = Inr (acc @ concat tss)\<rparr>"
  using assms
proof (induction ps arbitrary: p reqs acc tss)
  case Nil
  then show ?case
    by (subst scan_more.simps) (simp add: follow_ups_def split: option.splits)
next
  case (Cons q ps)
  from Cons.prems(1) obtain k where k: "map_of p ''LastEvaluatedKey'' = Some k"
    and q: "scan (length reqs) (Some k) = Inr q"
    and rest: "case map_of q ''LastEvaluatedKey'' of
         None \<Rightarrow> ps = []
       | Some k' \<Rightarrow> scan_pages scan (Suc (length reqs)) (Some k') ps"
    by (auto split: option.splits)
  from Cons.prems(2) obtain ts tss' where tss: "tss = ts # tss'" "page_has q ts"
     "list_all2 page_has ps tss'"
    by (auto simp: list_all2_Cons1)
  have "scan_more scan (reqs @ [Some k]) q (acc @ ts)
     = Some \<lparr>requests = (reqs @ [Some k]) @ follow_ups (q # ps),
             outcome = Inr ((acc @ ts) @ concat tss')\<rparr>"
    using rest tss(3) by (intro Cons.IH) (simp_all split: option.splits)
  then show ?case
    using k q tss page_has_terms [OF tss(2)]
    by (subst scan_more.simps) (simp add: follow_ups_def)
qed

text \<open>
  C10. \<^verbatim>\<open>get_all_terms\<close> returns the "term" attribute of every item of every scan
  page, in page order: when the first scan and the follow-up scans, each issued with the
  \<^verbatim>\<open>LastEvaluatedKey\<close> of the page before as \<^verbatim>\<open>ExclusiveStartKey\<close>, return the
  pages \<open>ps\<close>, the function terminates, it has issued exactly one follow-up scan for
  every page that carried a \<^verbatim>\<open>LastEvaluatedKey\<close>, and it returns the concatenation
  of the pages' terms.
\<close>

theorem get_all_terms_concat:
  assumes "scan_pages scan 0 None ps" and "list_all2 page_has ps tss"
  shows "get_all_terms scan
     = Some \<lparr>requests = None # follow_ups ps, outcome = Inr (concat tss)\<rparr>"
proof -
  from assms(1) obtain p ps' where ps: "ps = p # ps'" by (cases ps) auto
  from assms(2) ps obtain ts tss' where tss: "tss = ts # tss'" "page_has p ts"
     "list_all2 page_has ps' tss'"
    by (auto simp: list_all2_Cons1)
  have first: "scan 0 None = Inr p" using assms(1) ps by simp
  have "scan_more scan [None] p ts
     = Some \<lparr>requests = [None] @ follow_ups (p # ps'), outcome = Inr (ts @ concat tss')\<rparr>"
    using assms(1) ps tss(3) by (intro scan_more_pages) (simp_all split: option.splits)
  then show ?thesis
    using first page_has_terms [OF tss(2)] ps tss(1) by (simp add: get_all_terms_def)
qed

theorem get_all_terms_concat_witness:
  "get_all_terms sample_scan
     = Some \<lparr>requests = [None, Some (PDict [(''term'', PStr ''dcm'')])],
             outcome = Inr [PStr ''ceo'', PStr ''dcm'', PStr ''htm'']\<rparr>"
proof -
  let ?p0 = "[(''Items'', PList [PDict [(''term'', PStr ''ceo'')], PDict [(''term'', PStr ''dcm'')]]),
             (''LastEvaluatedKey'', PDict [(''term'', PStr ''dcm'')])]"
  let ?p1 = "[(''Items'', PList [PDict [(''term'', PStr ''htm'')]])]"
  have pages: "scan_pages sample_scan 0 None [?p0, ?p1]"
    by (simp add: sample_scan_def)
  have terms: "list_all2 page_has [?p0, ?p1] [[PStr ''ceo'', PStr ''dcm''], [PStr ''htm'']]"
    by (simp add: page_has_def)
  show ?thesis
    using get_all_terms_concat [OF pages terms] by (simp add: follow_ups_def)
qed

subsection \<open>The execution role\<close>

lemma then_log_simps [simp]:
  "then_log (l, Inl e) f = (l, Inl e)"
  "then_log (l, Inr x) f = (l @ fst (f x), snd (f x))"
  by (simp_all add: then_log_def split: prod.splits)

text \<open>
  C5, as the claim states it, fails: the function does not return the ARN of the role. With
  an IAM service that creates what it is asked to, the value returned is the whole
  \<^verbatim>\<open>create_role\<close> response, a dictionary, and not the ARN string found inside it.
\<close>

theorem create_bedrock_execution_role_returns_response:
  "snd (create_bedrock_execution_role sample_globals (\<lambda>v. ''{}'') sample_iam ''kb-bucket'')
     = Inr sample_role
   \<and> getitem2 sample_role ''Role'' ''Arn'' = Inr (PStr ''arn:aws:iam::123456789012:role/KBRole_321'')
   \<and> snd (create_bedrock_execution_role sample_globals (\<lambda>v. ''{}'') sample_iam ''kb-bucket'')
     \<noteq> Inr (PStr ''arn:aws:iam::123456789012:role/KBRole_321'')"
  by (simp add: create_bedrock_execution_role_def invoke_def silent_def sample_iam_def
      sample_globals_def sample_role_def getitem2_def)

text \<open>
  C5, amended. When the five IAM calls succeed and the responses carry the ARNs and the role
  name, \<^verbatim>\<open>create_bedrock_execution_role\<close> makes exactly these calls in this order:
  \<^verbatim>\<open>create_policy\<close> for the foundation-model policy, \<^verbatim>\<open>create_policy\<close> for the S3
  policy, \<^verbatim>\<open>create_role\<close> for the execution role, \<^verbatim>\<open>attach_role_policy\<close> of the
  foundation-model policy and \<^verbatim>\<open>attach_role_policy\<close> of the S3 policy to that role;
  and it returns the \<^verbatim>\<open>create_role\<close> response, the dictionary whose
  \<^verbatim>\<open>['Role']['Arn']\<close> entry is the ARN of the role.
\<close>

theorem create_bedrock_execution_role_calls:
  assumes "iam_client ''create_policy'' (fm_request g json_dumps) = Inr fm_policy"
    and "iam_client ''create_policy'' (s3_request g json_dumps bucket_name) = Inr s3_policy"
    and "iam_client ''create_role'' (role_request g json_dumps) = Inr role"
    and "getitem2 fm_policy ''Policy'' ''Arn'' = Inr fm_policy_arn"
    and "getitem2 s3_policy ''Policy'' ''Arn'' = Inr s3_policy_arn"
    and "getitem2 role ''Role'' ''Arn'' = Inr role_arn"
    and "getitem2 role ''Role'' ''RoleName'' = Inr role_name"
    and "iam_client ''attach_role_policy'' (attach_request role_name fm_policy_arn) = Inr r1"
    and "iam_client ''attach_role_policy'' (attach_request role_name s3_policy_arn) = Inr r2"
  shows "create_bedrock_execution_role g json_dumps iam_client bucket_name
     = ([(''create_policy'', fm_request g json_dumps),
         (''create_policy'', s3_request g json_dumps bucket_name),
         (''create_role'', role_request g json_dumps),
         (''attach_role_policy'', attach_request role_name fm_policy_arn),
         (''attach_role_policy'', attach_request role_name s3_policy_arn)],
        Inr role)"
  using assms
  by (simp add: create_bedrock_execution_role_def invoke_def silent_def
      fm_request_def s3_request_def role_request_def attach_request_def)


theorem create_bedrock_execution_role_calls_witness:
  "create_bedrock_execution_role sample_globals (\<lambda>v. ''{}'') sample_iam ''kb-bucket''
     = ([(''create_policy'', fm_request sample_globals (\<lambda>v. ''{}'')),
         (''create_policy'', s3_request sample_globals (\<lambda>v. ''{}'') ''kb-bucket''),
         (''create_role'', role_request sample_globals (\<lambda>v. ''{}'')),
         (''attach_role_policy'', attach_request (PStr ''KBRole_321'')
              (PStr ''arn:aws:iam::123456789012:policy/FMPolicy_321'')),
         (''attach_role_policy'', attach_request (PStr ''KBRole_321'')
              (PStr ''arn:aws:iam::123456789012:policy/S3Policy_321''))],
        Inr sample_role)"
proof -
  have fm: "sample_iam ''create_policy'' (fm_request sample_globals (\<lambda>v. ''{}''))
      = Inr (PDict [(''Policy'', PDict [(''PolicyName'', PStr ''FMPolicy_321''),
           (''Arn'', PStr ''arn:aws:iam::123456789012:policy/FMPolicy_321'')])])"
    by (simp add: sample_iam_def fm_request_def sample_globals_def)
  have s3: "sample_iam ''create_policy'' (s3_request sample_globals (\<lambda>v. ''{}'') ''kb-bucket'')
      = Inr (PDict [(''Policy'', PDict [(''PolicyName'', PStr ''S3Policy_321''),
           (''Arn'', PStr ''arn:aws:iam::123456789012:policy/S3Policy_321'')])])"
    by (simp add: sample_iam_def s3_request_def sample_globals_def)
  have role: "sample_iam ''create_role'' (role_request sample_globals (\<lambda>v. ''{}'')) = Inr sample_role"
    by (simp add: sample_iam_def role_request_def sample_globals_def sample_role_def)
  show ?thesis
    by (rule create_bedrock_execution_role_calls [OF fm s3 role])
       (simp_all add: getitem2_def sample_role_def sample_iam_def)
qed

subsection \<open>Retry configuration of the clients\<close>

text \<open>
  C7, as the claim states it, fails: called as the metadata notebook calls it,
  \<^verbatim>\<open>get_bedrock_client\<close> returns a client built with a \<^verbatim>\<open>Config\<close> that sets a
  retry policy of its own, ten attempts in mode "standard".
\<close>

theorem get_bedrock_client_sets_retries:
  "get_bedrock_client sample_aws None (Some ''us-east-1'') (Some True)
     = Inr \<lparr>service_name = ''bedrock-runtime'',
            config = Some \<lparr>config_region_name = PStr ''us-east-1'',
                            retries = Some \<lparr>max_attempts = 10, mode = ''standard''\<rparr>\<rparr>,
            client_kwargs = [(''region_name'', PStr ''us-east-1'')]\<rparr>"
  by (simp add: get_bedrock_client_def sample_aws_def opt_str_def truthy_str_def)

text \<open>
  C7, amended. The clients that the notebooks build directly with \<^verbatim>\<open>boto3.client\<close>
  or \<^verbatim>\<open>boto3.resource\<close> pass no \<^verbatim>\<open>Config\<close> and so configure no retry policy beyond
  the SDK's default; the Bedrock client returned by \<^verbatim>\<open>get_bedrock_client\<close>,
  whenever one is returned, is built with an explicit retry policy: at most ten attempts,
  mode "standard".
\<close>

theorem client_retry_configuration:
  "(\<forall>c \<in> set (notebook_clients region). config c = None)
   \<and> (get_bedrock_client aws assumed_role region' runtime = Inr c' \<longrightarrow>
        (\<exists>cfg. config c' = Some cfg
           \<and> retries cfg = Some \<lparr>max_attempts = 10, mode = ''standard''\<rparr>))"
proof
  show "\<forall>c \<in> set (notebook_clients region). config c = None"
    by (simp add: notebook_clients_def boto3_client_def)
next
  show "get_bedrock_client aws assumed_role region' runtime = Inr c' \<longrightarrow>
        (\<exists>cfg. config c' = Some cfg
           \<and> retries cfg = Some \<lparr>max_attempts = 10, mode = ''standard''\<rparr>)"
  proof
    assume "get_bedrock_client aws assumed_role region' runtime = Inr c'"
    then obtain session kwargs created where
      "c' = \<lparr>service_name = (if runtime = Some True then ''bedrock-runtime'' else ''bedrock''),
             config = Some \<lparr>config_region_name = opt_str
                 (case region' of
                    None \<Rightarrow> (case environ aws ''AWS_REGION'' of
                                None \<Rightarrow> environ aws ''AWS_DEFAULT_REGION''
                              | Some r \<Rightarrow> Some r)
                  | Some r \<Rightarrow> Some r),
               retries = Some \<lparr>max_attempts = 10, mode = ''standard''\<rparr>\<rparr>,
             client_kwargs = kwargs\<rparr>"
      unfolding get_bedrock_client_def Let_def
      by (blast dest: bind_exn_Inr sym)
    then show "\<exists>cfg. config c' = Some cfg
           \<and> retries cfg = Some \<lparr>max_attempts = 10, mode = ''standard''\<rparr>"
      by simp
  qed
qed

theorem client_retry_configuration_witness:
  "config (boto3_client ''glue'' [(''region_name'', PStr ''us-east-1'')]) = None
   \<and> (\<exists>c' cfg. get_bedrock_client sample_aws None (Some ''us-east-1'') None = Inr c'
         \<and> config c' = Some cfg
         \<and> retries cfg = Some \<lparr>max_attempts = 10, mode = ''standard''\<rparr>)"
proof -
  have member: "boto3_client ''glue'' [(''region_name'', PStr ''us-east-1'')]
      \<in> set (notebook_clients PNone)"
    by (simp add: notebook_clients_def)
  have returns: "get_bedrock_client sample_aws None (Some ''us-east-1'') None
     = Inr \<lparr>service_name = ''bedrock'',
            config = Some \<lparr>config_region_name = PStr ''us-east-1'',
                            retries = Some \<lparr>max_attempts = 10, mode = ''standard''\<rparr>\<rparr>,
            client_kwargs = [(''region_name'', PStr ''us-east-1'')]\<rparr>"
    by (simp add: get_bedrock_client_def sample_aws_def opt_str_def truthy_str_def)
  from client_retry_configuration [of PNone sample_aws None "Some ''us-east-1''" None]
    member returns show ?thesis by blast
qed

subsection \<open>Splitting strings\<close>

lemma py_in_iff: "py_in sub s \<longleftrightarrow> (\<exists>pre post. s = pre @ sub @ post)"
proof (induction s)
  case Nil
  then show ?case by auto
next
  case (Cons c cs)
  show ?case
  proof
    assume "py_in sub (c # cs)"
    then consider "prefix sub (c # cs)" | "py_in sub cs" by auto
    then show "\<exists>pre post. c # cs = pre @ sub @ post"
    proof cases
      case 1
      then obtain post where "c # cs = sub @ post" by (auto simp: prefix_def)
      then have "c # cs = [] @ sub @ post" by simp
      then show ?thesis by blast
    next
      case 2
      then obtain pre post where "cs = pre @ sub @ post" using Cons.IH by blast
      then have "c # cs = (c # pre) @ sub @ post" by simp
      then show ?thesis by blast
    qed
  next
    assume "\<exists>pre post. c # cs = pre @ sub @ post"
    then obtain pre post where eq: "c # cs = pre @ sub @ post" by blast
    show "py_in sub (c # cs)"
    proof (cases pre)
      case Nil
      then have "prefix sub (c # cs)" using eq by (simp add: prefix_def)
      then show ?thesis by simp
    next
      case (Cons d pre')
      then have "cs = pre' @ sub @ post" using eq by simp
      then have "py_in sub cs" using Cons.IH by blast
      then show ?thesis by simp
    qed
  qed
qed

lemma split_py_nonempty: "split_py sep s \<noteq> []"
  by (induction sep s rule: split_py.induct) (auto split: list.splits)

lemma split_py_absent: "\<not> py_in sep s \<Longrightarrow> split_py sep s = [s]"
  by (induction s) (auto split: list.splits)

lemma prefix_within:
  assumes "prefix sep (xs @ ys)" and "length sep \<le> length xs"
  shows "prefix sep xs"
proof -
  from assms(1) obtain zs where "xs @ ys = sep @ zs" by (auto simp: prefix_def)
  then have "take (length sep) (xs @ ys) = sep" by simp
  then have "take (length sep) xs = sep" using assms(2) by simp
  then show ?thesis by (metis take_is_prefix)
qed

lemma py_in_length: "py_in sub s \<Longrightarrow> length sub \<le> length s"
  by (auto simp: py_in_iff)

lemma py_in_butlast: "sep \<noteq> [] \<Longrightarrow> \<not> py_in sep (butlast sep)"
  using py_in_length [of sep "butlast sep"] by (cases sep rule: rev_cases) auto

lemma py_in_append: "py_in sub s \<Longrightarrow> py_in sub (xs @ s @ ys)"
proof -
  assume "py_in sub s"
  then obtain pre post where "s = pre @ sub @ post" by (auto simp: py_in_iff)
  then have "xs @ s @ ys = (xs @ pre) @ sub @ (post @ ys)" by simp
  then show ?thesis unfolding py_in_iff by blast
qed

lemma split_py_first:
  assumes "sep \<noteq> []" and "\<not> py_in sep (pre @ butlast sep)"
  shows "split_py sep (pre @ sep @ post) = pre # split_py sep post"
  using assms(2)
proof (induction pre)
  case Nil
  obtain c cs where sep: "sep = c # cs" using assms(1) by (cases sep) auto
  then show ?case by simp
next
  case (Cons c pre)
  obtain b l where sep: "sep = b @ [l]" using assms(1) by (cases sep rule: rev_cases) auto
  have len: "length sep \<le> length ((c # pre) @ b)" using sep by simp
  have "\<not> prefix sep ((c # pre) @ b)" using Cons.prems sep by simp
  then have "\<not> prefix sep (((c # pre) @ b) @ ([l] @ post))"
    using prefix_within [OF _ len] by blast
  moreover have "((c # pre) @ b) @ ([l] @ post) = c # pre @ sep @ post"
    using sep by simp
  ultimately have no: "\<not> prefix sep (c # pre @ sep @ post)" by metis
  have "\<not> py_in sep (pre @ butlast sep)" using Cons.prems by simp
  then have "split_py sep (pre @ sep @ post) = pre # split_py sep post" by (rule Cons.IH)
  then show ?case using no by simp
qed

lemma first_occurrence:
  assumes "sep \<noteq> []"
  shows "py_in sep s \<Longrightarrow> \<exists>pre post. first_at sep s pre post"
proof (induction s)
  case Nil
  then show ?case using assms by simp
next
  case (Cons c cs)
  show ?case
  proof (cases "prefix sep (c # cs)")
    case True
    then obtain post where "c # cs = [] @ sep @ post" by (auto simp: prefix_def)
    moreover have "\<not> py_in sep ([] @ butlast sep)" using assms by (simp add: py_in_butlast)
    ultimately show ?thesis unfolding first_at_def by blast
  next
    case False
    then have "py_in sep cs" using Cons.prems by simp
    then obtain pre post where cs: "cs = pre @ sep @ post"
      and no: "\<not> py_in sep (pre @ butlast sep)"
      using Cons.IH by (auto simp: first_at_def)
    obtain b l where sep: "sep = b @ [l]" using assms by (cases sep rule: rev_cases) auto
    have "c # pre @ sep @ post = (c # pre @ butlast sep) @ ([l] @ post)"
      using sep by simp
    then have "prefix (c # pre @ butlast sep) (c # pre @ sep @ post)"
      by (rule prefixI)
    then have "\<not> prefix sep (c # pre @ butlast sep)"
      using False cs by (metis prefix_order.trans)
    then have "\<not> py_in sep ((c # pre) @ butlast sep)" using no by simp
    moreover have "c # cs = (c # pre) @ sep @ post" using cs by simp
    ultimately show ?thesis unfolding first_at_def by blast
  qed
qed

lemma split_py_first_at:
  "sep \<noteq> [] \<Longrightarrow> first_at sep s pre post \<Longrightarrow> split_py sep s = pre # split_py sep post"
  by (simp add: first_at_def split_py_first)

lemma first_at_py_in: "first_at sep s pre post \<Longrightarrow> py_in sep s"
  unfolding first_at_def py_in_iff by blast

lemma split_py_index0:
  assumes "sep \<noteq> []"
  shows "\<exists>p. text_before sep s p \<and> py_index (split_py sep s) 0 = Inr p"
proof (cases "py_in sep s")
  case True
  then obtain pre post where f: "first_at sep s pre post"
    using first_occurrence [OF assms] by blast
  then have "split_py sep s = pre # split_py sep post" using assms by (rule split_py_first_at [rotated])
  then have "py_index (split_py sep s) 0 = Inr pre" by (simp add: py_index_def)
  moreover have "text_before sep s pre" using True f by (auto simp: text_before_def)
  ultimately show ?thesis by blast
next
  case False
  then show ?thesis by (simp add: split_py_absent text_before_def py_index_def)
qed

lemma split_py_index1:
  assumes "sep \<noteq> []" and "py_in sep s"
  shows "\<exists>pre post seg. first_at sep s pre post \<and> text_before sep post seg
           \<and> py_index (split_py sep s) 1 = Inr seg"
proof -
  obtain pre post where f: "first_at sep s pre post"
    using first_occurrence [OF assms] by blast
  then have s: "split_py sep s = pre # split_py sep post" using assms(1) by (rule split_py_first_at [rotated])
  obtain seg where seg: "text_before sep post seg" "py_index (split_py sep post) 0 = Inr seg"
    using split_py_index0 [OF assms(1)] by blast
  from seg(2) have "py_index (split_py sep s) 1 = Inr seg"
    unfolding s by (cases "split_py sep post") (simp_all add: py_index_def)
  with f seg(1) show ?thesis by blast
qed

lemma split_py_index1_absent:
  "\<not> py_in sep s \<Longrightarrow> py_index (split_py sep s) 1 = Inl IndexError"
  by (simp add: split_py_absent py_index_def)


subsection \<open>The glossary parser\<close>

lemma lower_char_idem: "lower_char (lower_char c) = lower_char c"
  by (auto simp: lower_char_def Let_def)

lemma lower_idem: "lower (lower s) = lower s"
  by (simp add: lower_def lower_char_idem)

lemma lower_Nil_iff: "lower s = [] \<longleftrightarrow> s = []"
  by (simp add: lower_def)

lemma first_at_Nil_iff:
  assumes "sep \<noteq> []" and "first_at sep s pre post"
  shows "pre = [] \<longleftrightarrow> prefix sep s"
proof
  assume "pre = []"
  then show "prefix sep s" using assms(2) by (simp add: first_at_def)
next
  assume p: "prefix sep s"
  show "pre = []"
  proof (rule ccontr)
    assume "pre \<noteq> []"
    then have len: "length sep \<le> length (pre @ butlast sep)"
      by (cases pre) simp_all
    obtain b l where sep: "sep = b @ [l]" using assms(1) by (cases sep rule: rev_cases) auto
    have "s = (pre @ butlast sep) @ ([l] @ post)" using assms(2) sep by (simp add: first_at_def)
    then have "prefix sep ((pre @ butlast sep) @ ([l] @ post))" using p by simp
    then have "prefix sep (pre @ butlast sep)" using len by (rule prefix_within)
    then have "py_in sep (pre @ butlast sep)" by (cases "pre @ butlast sep") (auto simp: assms(1))
    then show False using assms(2) by (simp add: first_at_def)
  qed
qed

lemma glossary_line_blank: "strip raw = [] \<Longrightarrow> glossary_line raw = Inr None"
  by (simp add: glossary_line_def)

lemma glossary_line_bad:
  "strip raw \<noteq> [] \<Longrightarrow> \<not> py_in '': '' (strip raw) \<Longrightarrow> glossary_line raw = Inl IndexError"
  by (simp add: glossary_line_def split_py_absent py_index_def)

lemma glossary_line_good:
  assumes "strip raw \<noteq> []" and "py_in '': '' (strip raw)"
  shows "if prefix '': '' (strip raw) then glossary_line raw = Inr None
         else (\<exists>e. entry_of (strip raw) e \<and> glossary_line raw = Inr (Some e))"
proof -
  have ne: "'': '' \<noteq> []" by simp
  obtain pre post seg where f: "first_at '': '' (strip raw) pre post"
    and seg: "text_before '': '' post seg"
    and i1: "py_index (split_py '': '' (strip raw)) 1 = Inr seg"
    using split_py_index1 [OF ne assms(2)] by blast
  have "split_py '': '' (strip raw) = pre # split_py '': '' post"
    using ne f by (rule split_py_first_at)
  then have i0: "py_index (split_py '': '' (strip raw)) 0 = Inr pre"
    by (simp add: py_index_def)
  have pre: "pre = [] \<longleftrightarrow> prefix '': '' (strip raw)"
    using ne f by (rule first_at_Nil_iff)
  show ?thesis
  proof (cases "prefix '': '' (strip raw)")
    case True
    then show ?thesis using assms(1) i0 i1 pre
      by (simp add: glossary_line_def Let_def lower_Nil_iff)
  next
    case False
    let ?e = "PDict [(''term'', PStr (lower pre)), (''term_definition'', PStr seg)]"
    have "entry_of (strip raw) ?e" using f seg unfolding entry_of_def by blast
    moreover have "glossary_line raw = Inr (Some ?e)"
      using False assms(1) i0 i1 pre
      by (simp add: glossary_line_def Let_def lower_Nil_iff lower_idem)
    ultimately show ?thesis using False by auto
  qed
qed

lemma glossary_loop_good:
  assumes "\<forall>l \<in> set (filter (\<lambda>l. l \<noteq> []) (map strip raws)). py_in '': '' l"
  shows "\<exists>entries. glossary_loop raws acc = Inr (acc @ entries)
     \<and> list_all2 entry_of
          (filter (\<lambda>l. \<not> prefix '': '' l) (filter (\<lambda>l. l \<noteq> []) (map strip raws))) entries"
  using assms
proof (induction raws arbitrary: acc)
  case Nil
  then show ?case by simp
next
  case (Cons raw rest)
  have rest: "\<forall>l \<in> set (filter (\<lambda>l. l \<noteq> []) (map strip rest)). py_in '': '' l"
    using Cons.prems by simp
  show ?case
  proof (cases "strip raw = []")
    case True
    then show ?thesis using Cons.IH [OF rest, of acc] by (simp add: glossary_line_blank)
  next
    case False
    then have "py_in '': '' (strip raw)" using Cons.prems by simp
    note good = glossary_line_good [OF False this]
    show ?thesis
    proof (cases "prefix '': '' (strip raw)")
      case True
      then show ?thesis using good False Cons.IH [OF rest, of acc] by simp
    next
      case nopre: False
      then obtain e where e: "entry_of (strip raw) e" "glossary_line raw = Inr (Some e)"
        using good by auto
      obtain entries where "glossary_loop rest (acc @ [e]) = Inr ((acc @ [e]) @ entries)"
        "list_all2 entry_of
          (filter (\<lambda>l. \<not> prefix '': '' l) (filter (\<lambda>l. l \<noteq> []) (map strip rest))) entries"
        using Cons.IH [OF rest, of "acc @ [e]"] by blast
      then have "glossary_loop (raw # rest) acc = Inr (acc @ (e # entries))
        \<and> list_all2 entry_of
          (filter (\<lambda>l. \<not> prefix '': '' l) (filter (\<lambda>l. l \<noteq> []) (map strip (raw # rest))))
          (e # entries)"
        using e nopre False by simp
      then show ?thesis by blast
    qed
  qed
qed

lemma glossary_loop_bad:
  assumes "\<exists>l \<in> set (filter (\<lambda>l. l \<noteq> []) (map strip raws)). \<not> py_in '': '' l"
  shows "glossary_loop raws acc = Inl IndexError"
  using assms
proof (induction raws arbitrary: acc)
  case Nil
  then show ?case by simp
next
  case (Cons raw rest)
  show ?case
  proof (cases "strip raw \<noteq> [] \<and> \<not> py_in '': '' (strip raw)")
    case True
    then show ?thesis by (simp add: glossary_line_bad)
  next
    case False
    then have rest: "\<exists>l \<in> set (filter (\<lambda>l. l \<noteq> []) (map strip rest)). \<not> py_in '': '' l"
      using Cons.prems by (auto split: if_splits)
    have "\<exists>r. glossary_line raw = Inr r"
    proof (cases "strip raw = []")
      case True
      then show ?thesis by (simp add: glossary_line_blank)
    next
      case ne: False
      then have "py_in '': '' (strip raw)" using False by simp
      from glossary_line_good [OF ne this] show ?thesis by (auto split: if_splits)
    qed
    then obtain r where "glossary_line raw = Inr r" by blast
    then show ?thesis using Cons.IH [OF rest] by simp
  qed
qed

text \<open>
  C2, as the claim states it, fails. A line with two separators loses what follows the
  second one, a non-empty line without a separator raises \<^verbatim>\<open>IndexError\<close>, and a
  non-empty line that starts with the separator contributes no pair.
\<close>

theorem convert_glossary_counterexample:
  "convert_glossary_to_dict ''a: b: c''
     = Inr [PDict [(''term'', PStr ''a''), (''term_definition'', PStr ''b'')]]
   \<and> convert_glossary_to_dict ''abc'' = Inl IndexError
   \<and> convert_glossary_to_dict '': foo'' = Inr []"
  by code_simp

text \<open>
  C2, amended. If every line that is non-empty after stripping contains ": ", then
  \<^verbatim>\<open>convert_glossary_to_dict\<close> returns one pair for each such line that does not begin
  with ": ", in line order: the term is the text before the first ": " lowercased, the
  definition is the text after that first ": " up to the next ": " or, if there is none, to
  the end of the line. Lines that are empty after stripping, and lines whose term is empty,
  contribute no pair. If some line that is non-empty after stripping contains no ": ", the
  function raises \<^verbatim>\<open>IndexError\<close>.
\<close>

theorem convert_glossary_entries:
  "((\<forall>l \<in> set (glossary_lines g). py_in '': '' l) \<longrightarrow>
      (\<exists>entries. convert_glossary_to_dict g = Inr entries
         \<and> list_all2 entry_of (filter (\<lambda>l. \<not> prefix '': '' l) (glossary_lines g)) entries))
   \<and> ((\<exists>l \<in> set (glossary_lines g). \<not> py_in '': '' l) \<longrightarrow>
        convert_glossary_to_dict g = Inl IndexError)"
  using glossary_loop_good [of "split_py [CHR 0x0A] g" "[]"]
    glossary_loop_bad [of "split_py [CHR 0x0A] g" "[]"]
  by (simp add: convert_glossary_to_dict_def glossary_lines_def)


theorem convert_glossary_entries_witness:
  "(\<exists>entries. convert_glossary_to_dict sample_glossary = Inr entries
      \<and> list_all2 entry_of (filter (\<lambda>l. \<not> prefix '': '' l) (glossary_lines sample_glossary)) entries)
   \<and> convert_glossary_to_dict ''no separator here'' = Inl IndexError"
proof -
  have good: "\<forall>l \<in> set (glossary_lines sample_glossary). py_in '': '' l"
    by code_simp
  have bad: "\<exists>l \<in> set (glossary_lines ''no separator here''). \<not> py_in '': '' l"
    by code_simp
  show ?thesis
    using convert_glossary_entries [of sample_glossary]
      convert_glossary_entries [of "''no separator here''"] good bad
    by blast
qed

subsection \<open>Dispatch by name\<close>

lemma silent_then [simp]: "then_log (silent r) f = (case r of Inl e \<Rightarrow> ([], Inl e) | Inr x \<Rightarrow> f x)"
  by (simp add: silent_def split: sum.splits)

lemma extract_block:
  assumes "opening \<noteq> []" and "closing \<noteq> []" and "py_in opening s"
  shows "\<exists>seg body. block_between opening closing s body
     \<and> py_index (split_py opening s) 1 = Inr seg
     \<and> py_index (split_py closing seg) 0 = Inr body"
proof -
  obtain pre post seg where a: "first_at opening s pre post" "text_before opening post seg"
     "py_index (split_py opening s) 1 = Inr seg"
    using split_py_index1 [OF assms(1,3)] by blast
  obtain body where b: "text_before closing seg body" "py_index (split_py closing seg) 0 = Inr body"
    using split_py_index0 [OF assms(2)] by blast
  from a b show ?thesis unfolding block_between_def by blast
qed





subsection \<open>The retriever step\<close>

lemma first_at_unique:
  assumes "sep \<noteq> []" and "first_at sep s pre post" and "first_at sep s pre' post'"
  shows "pre = pre' \<and> post = post'"
proof -
  have "split_py sep s = pre # split_py sep post" using assms(1,2) by (rule split_py_first_at)
  moreover have "split_py sep s = pre' # split_py sep post'" using assms(1,3) by (rule split_py_first_at)
  ultimately have "pre = pre'" by simp
  moreover have "pre @ sep @ post = pre' @ sep @ post'"
    using assms(2,3) by (simp add: first_at_def)
  ultimately show ?thesis by simp
qed

lemma text_before_unique:
  assumes "sep \<noteq> []" and "text_before sep s p" and "text_before sep s p'"
  shows "p = p'"
  using assms first_at_unique [of sep s p _ p']
  by (auto simp: text_before_def split: if_splits)

lemma block_between_unique:
  assumes "opening \<noteq> []" and "closing \<noteq> []"
    and "block_between opening closing s b" and "block_between opening closing s b'"
  shows "b = b'"
proof -
  obtain pre post seg where a: "first_at opening s pre post" "text_before opening post seg"
     "text_before closing seg b"
    using assms(3) unfolding block_between_def by blast
  obtain pre' post' seg' where b: "first_at opening s pre' post'" "text_before opening post' seg'"
     "text_before closing seg' b'"
    using assms(4) unfolding block_between_def by blast
  have "post = post'" using first_at_unique [OF assms(1) a(1) b(1)] by simp
  then have "seg = seg'" using text_before_unique [OF assms(1) a(2)] b(2) by simp
  then show ?thesis using text_before_unique [OF assms(2) a(3)] b(3) by simp
qed

lemma block_between_py_in: "block_between opening closing s b \<Longrightarrow> py_in opening s"
  unfolding block_between_def using first_at_py_in by blast

lemma step_answer:
  assumes "py_in ''<answer>'' output"
  shows "\<exists>answer. block_between ''<answer>'' ''</answer>'' output answer
     \<and> single_retriever_step w prompt output = ([], Inr (True, answer))"
proof -
  obtain seg answer where "block_between ''<answer>'' ''</answer>'' output answer"
    "py_index (split_py ''<answer>'' output) 1 = Inr seg"
    "py_index (split_py ''</answer>'' seg) 0 = Inr answer"
    using extract_block [of "''<answer>''" "''</answer>''" "output"] assms by auto
  then show ?thesis using assms by (auto simp: single_retriever_step_def silent_def)
qed

lemma step_no_block:
  assumes "\<not> py_in ''<answer>'' output" and "\<not> py_in ''<function_calls>'' output"
  shows "single_retriever_step w prompt output = ([], Inl IndexError)"
  using assms by (simp add: single_retriever_step_def split_py_index1_absent)

lemma step_block:
  assumes "\<not> py_in ''<answer>'' output"
    and "block_between ''<function_calls>'' ''</function_calls>'' output function_xml"
  shows "single_retriever_step w prompt output =
     then_log (silent (xml_parse w function_xml)) (\<lambda>function_dict.
     then_log (silent (getitem2 function_dict ''invoke'' ''tool_name'')) (\<lambda>func_name.
     then_log (silent (getitem2 function_dict ''invoke'' ''parameters'')) (\<lambda>parameters.
     then_log (call_function w func_name parameters) (\<lambda>func_response.
     silent (Inr (False, prompt @ output @ function_results w func_response))))))"
proof -
  have inb: "py_in ''<function_calls>'' output" using assms(2) by (rule block_between_py_in)
  obtain seg body where b: "block_between ''<function_calls>'' ''</function_calls>'' output body"
    "py_index (split_py ''<function_calls>'' output) 1 = Inr seg"
    "py_index (split_py ''</function_calls>'' seg) 0 = Inr body"
    using extract_block [of "''<function_calls>''" "''</function_calls>''" "output"] inb by auto
  have "body = function_xml"
    using block_between_unique [OF _ _ b(1) assms(2)] by simp
  then show ?thesis
    using assms(1) b(2,3)
    by (simp add: single_retriever_step_def function_results_def Let_def)
qed


lemma fst_then_silent: "fst (then_log m (\<lambda>x. silent (g x))) = fst m"
  by (cases m; cases "snd m") (auto simp: then_log_def silent_def)

lemma snd_then_silent:
  "snd (then_log m (\<lambda>x. silent (Inr (g x)))) = (case snd m of Inl e \<Rightarrow> Inl e | Inr x \<Rightarrow> Inr (g x))"
  by (cases m; cases "snd m") (auto simp: then_log_def silent_def)

lemma function_results_nonempty: "function_results w r \<noteq> []"
  by (simp add: function_results_def nl_def)

text \<open>
  C4, as the claim states it, fails. With a second \<^verbatim>\<open><answer>\<close> before the closing
  tag the step returns the text up to that second tag, not the text up to the next
  \<^verbatim>\<open></answer>\<close>; and an output with neither \<^verbatim>\<open><answer>\<close> nor
  \<^verbatim>\<open><function_calls>\<close> raises \<^verbatim>\<open>IndexError\<close> instead of dispatching a tool.
\<close>

theorem single_retriever_step_answer_counterexample:
  "py_in ''<answer>'' ''<answer>a<answer>b</answer>''
   \<and> ''<answer>a<answer>b</answer>'' = ''<answer>'' @ ''a<answer>b'' @ ''</answer>''
   \<and> \<not> py_in ''</answer>'' ''a<answer>b''
   \<and> single_retriever_step sample_world ''Q'' ''<answer>a<answer>b</answer>''
       = ([], Inr (True, ''a''))
   \<and> \<not> py_in ''<answer>'' ''No tool is needed.''
   \<and> single_retriever_step sample_world ''Q'' ''No tool is needed.'' = ([], Inl IndexError)"
  by code_simp

text \<open>
  C4, amended. For every output that contains \<^verbatim>\<open><answer>\<close>, the step returns
  \<^verbatim>\<open>done = True\<close> with the text after the first \<^verbatim>\<open><answer>\<close> up to whichever comes
  first of the next \<^verbatim>\<open></answer>\<close>, the next \<^verbatim>\<open><answer>\<close> and the end of the output;
  it invokes no tool and returns no prompt. For every output without \<^verbatim>\<open><answer>\<close> but
  with \<^verbatim>\<open><function_calls>\<close>, it passes the block after the first
  \<^verbatim>\<open><function_calls>\<close>, delimited in the same way, to the XML parser; when the parse
  yields a tool name and parameters, the calls made are those of \<^verbatim>\<open>call_function\<close> on
  them, and when the parser raises, so does the step. An output with neither tag raises
  \<^verbatim>\<open>IndexError\<close>.
\<close>

theorem single_retriever_step_branches:
  "(py_in ''<answer>'' output \<longrightarrow>
      (\<exists>answer. block_between ''<answer>'' ''</answer>'' output answer
         \<and> single_retriever_step w prompt output = ([], Inr (True, answer))))
   \<and> (\<not> py_in ''<answer>'' output \<and> py_in ''<function_calls>'' output \<longrightarrow>
      (\<exists>function_xml.
           block_between ''<function_calls>'' ''</function_calls>'' output function_xml
         \<and> (\<forall>d name params.
               xml_parse w function_xml = Inr d
               \<and> getitem2 d ''invoke'' ''tool_name'' = Inr name
               \<and> getitem2 d ''invoke'' ''parameters'' = Inr params
             \<longrightarrow> fst (single_retriever_step w prompt output) = fst (call_function w name params))
         \<and> (\<forall>e. xml_parse w function_xml = Inl e
             \<longrightarrow> single_retriever_step w prompt output = ([], Inl e))))
   \<and> (\<not> py_in ''<answer>'' output \<and> \<not> py_in ''<function_calls>'' output \<longrightarrow>
      single_retriever_step w prompt output = ([], Inl IndexError))"
proof (intro conjI impI)
  assume "py_in ''<answer>'' output"
  then show "\<exists>answer. block_between ''<answer>'' ''</answer>'' output answer
         \<and> single_retriever_step w prompt output = ([], Inr (True, answer))"
    by (rule step_answer)
next
  assume a: "\<not> py_in ''<answer>'' output \<and> py_in ''<function_calls>'' output"
  then obtain function_xml where
    b: "block_between ''<function_calls>'' ''</function_calls>'' output function_xml"
    using extract_block [of "''<function_calls>''" "''</function_calls>''" "output"] by auto
  note eq = step_block [OF conjunct1 [OF a] b, of w prompt]
  have "\<forall>d name params.
               xml_parse w function_xml = Inr d
               \<and> getitem2 d ''invoke'' ''tool_name'' = Inr name
               \<and> getitem2 d ''invoke'' ''parameters'' = Inr params
             \<longrightarrow> fst (single_retriever_step w prompt output) = fst (call_function w name params)"
    unfolding eq by (simp add: fst_then_silent)
  moreover have "\<forall>e. xml_parse w function_xml = Inl e
             \<longrightarrow> single_retriever_step w prompt output = ([], Inl e)"
    unfolding eq by simp
  ultimately show "\<exists>function_xml.
           block_between ''<function_calls>'' ''</function_calls>'' output function_xml
         \<and> (\<forall>d name params.
               xml_parse w function_xml = Inr d
               \<and> getitem2 d ''invoke'' ''tool_name'' = Inr name
               \<and> getitem2 d ''invoke'' ''parameters'' = Inr params
             \<longrightarrow> fst (single_retriever_step w prompt output) = fst (call_function w name params))
         \<and> (\<forall>e. xml_parse w function_xml = Inl e
             \<longrightarrow> single_retriever_step w prompt output = ([], Inl e))"
    using b by blast
next
  assume "\<not> py_in ''<answer>'' output \<and> \<not> py_in ''<function_calls>'' output"
  then show "single_retriever_step w prompt output = ([], Inl IndexError)"
    by (simp add: step_no_block)
qed

theorem single_retriever_step_branches_witness:
  "(\<exists>answer. block_between ''<answer>'' ''</answer>'' ''It is <answer>sunny</answer>.'' answer
       \<and> single_retriever_step sample_world ''Q'' ''It is <answer>sunny</answer>.''
           = ([], Inr (True, answer)))
   \<and> single_retriever_step sample_world ''Q'' ''I cannot tell.'' = ([], Inl IndexError)
   \<and> (\<exists>function_xml.
           block_between ''<function_calls>'' ''</function_calls>'' lat_long_output function_xml)"
proof -
  have a: "py_in ''<answer>'' ''It is <answer>sunny</answer>.''" by code_simp
  have b: "\<not> py_in ''<answer>'' ''I cannot tell.'' \<and> \<not> py_in ''<function_calls>'' ''I cannot tell.''"
    by code_simp
  have c: "\<not> py_in ''<answer>'' lat_long_output \<and> py_in ''<function_calls>'' lat_long_output"
    by code_simp
  have p: "xml_parse sample_world = sample_parse" by (simp add: sample_world_def)
  show ?thesis
    using single_retriever_step_branches [of "''It is <answer>sunny</answer>.''" sample_world "''Q''"]
      single_retriever_step_branches [of "''I cannot tell.''" sample_world "''Q''"]
      single_retriever_step_branches [of lat_long_output sample_world "''Q''"]
      a b c unfolding p
    by blast
qed

text \<open>
  C9, as the claim states it, fails: on an output with neither \<^verbatim>\<open><answer>\<close> nor
  \<^verbatim>\<open><function_calls>\<close> the step returns nothing, it raises \<^verbatim>\<open>IndexError\<close>.
\<close>

theorem single_retriever_step_raises:
  "\<not> py_in ''<answer>'' ''I do not know.''
   \<and> single_retriever_step sample_world ''What is the weather?'' ''I do not know.''
       = ([], Inl IndexError)"
  by code_simp

text \<open>
  C9, amended. The conversation history is append-only: on an output without
  \<^verbatim>\<open><answer>\<close>, whenever the step returns, it returns \<^verbatim>\<open>done = False\<close> and a new
  prompt that has the input prompt as a strict prefix, namely the prompt, then the model
  output, then the wrapped result of the dispatched function; and it does return whenever
  the \<^verbatim>\<open><function_calls>\<close> block parses to a tool name and parameters and the
  dispatched call returns. Otherwise it raises.
\<close>

theorem single_retriever_step_extends_prompt:
  assumes "\<not> py_in ''<answer>'' output"
  shows "(snd (single_retriever_step w prompt output) = Inr (is_done, new_prompt) \<longrightarrow>
           is_done = False \<and> strict_prefix prompt new_prompt
           \<and> (\<exists>function_xml d name params func_response.
                 block_between ''<function_calls>'' ''</function_calls>'' output function_xml
               \<and> xml_parse w function_xml = Inr d
               \<and> getitem2 d ''invoke'' ''tool_name'' = Inr name
               \<and> getitem2 d ''invoke'' ''parameters'' = Inr params
               \<and> snd (call_function w name params) = Inr func_response
               \<and> new_prompt = prompt @ output @ function_results w func_response))
     \<and> (\<forall>function_xml d name params func_response.
             block_between ''<function_calls>'' ''</function_calls>'' output function_xml
           \<and> xml_parse w function_xml = Inr d
           \<and> getitem2 d ''invoke'' ''tool_name'' = Inr name
           \<and> getitem2 d ''invoke'' ''parameters'' = Inr params
           \<and> snd (call_function w name params) = Inr func_response
         \<longrightarrow> snd (single_retriever_step w prompt output)
               = Inr (False, prompt @ output @ function_results w func_response))"
proof (rule conjI, rule impI)
  assume ret: "snd (single_retriever_step w prompt output) = Inr (is_done, new_prompt)"
  have inb: "py_in ''<function_calls>'' output"
  proof (rule ccontr)
    assume "\<not> py_in ''<function_calls>'' output"
    then show False using ret step_no_block [OF assms, of w prompt] by simp
  qed
  then obtain function_xml where
    b: "block_between ''<function_calls>'' ''</function_calls>'' output function_xml"
    using extract_block [of "''<function_calls>''" "''</function_calls>''" "output"] by auto
  note eq = step_block [OF assms b, of w prompt]
  obtain d where d: "xml_parse w function_xml = Inr d"
    using ret unfolding eq by (cases "xml_parse w function_xml") simp_all
  obtain name where name: "getitem2 d ''invoke'' ''tool_name'' = Inr name"
    using ret d unfolding eq by (cases "getitem2 d ''invoke'' ''tool_name''") simp_all
  obtain params where params: "getitem2 d ''invoke'' ''parameters'' = Inr params"
    using ret d name unfolding eq by (cases "getitem2 d ''invoke'' ''parameters''") simp_all
  have tail: "snd (single_retriever_step w prompt output)
      = (case snd (call_function w name params) of Inl e \<Rightarrow> Inl e
         | Inr r \<Rightarrow> Inr (False, prompt @ output @ function_results w r))"
    unfolding eq using d name params by (simp add: snd_then_silent)
  then obtain r where r: "snd (call_function w name params) = Inr r"
    using ret by (cases "snd (call_function w name params)") simp_all
  have res: "is_done = False" "new_prompt = prompt @ output @ function_results w r"
    using ret tail r by simp_all
  have "strict_prefix prompt new_prompt"
    unfolding res(2) using function_results_nonempty [of w r] by (simp add: strict_prefix_def)
  with res b d name params r
  show "is_done = False \<and> strict_prefix prompt new_prompt
           \<and> (\<exists>function_xml d name params func_response.
                 block_between ''<function_calls>'' ''</function_calls>'' output function_xml
               \<and> xml_parse w function_xml = Inr d
               \<and> getitem2 d ''invoke'' ''tool_name'' = Inr name
               \<and> getitem2 d ''invoke'' ''parameters'' = Inr params
               \<and> snd (call_function w name params) = Inr func_response
               \<and> new_prompt = prompt @ output @ function_results w func_response)"
    by blast
next
  show "\<forall>function_xml d name params func_response.
             block_between ''<function_calls>'' ''</function_calls>'' output function_xml
           \<and> xml_parse w function_xml = Inr d
           \<and> getitem2 d ''invoke'' ''tool_name'' = Inr name
           \<and> getitem2 d ''invoke'' ''parameters'' = Inr params
           \<and> snd (call_function w name params) = Inr func_response
         \<longrightarrow> snd (single_retriever_step w prompt output)
               = Inr (False, prompt @ output @ function_results w func_response)"
  proof (intro allI impI)
  fix function_xml d name params func_response
  assume h: "block_between ''<function_calls>'' ''</function_calls>'' output function_xml
           \<and> xml_parse w function_xml = Inr d
           \<and> getitem2 d ''invoke'' ''tool_name'' = Inr name
           \<and> getitem2 d ''invoke'' ''parameters'' = Inr params
           \<and> snd (call_function w name params) = Inr func_response"
  then have b: "block_between ''<function_calls>'' ''</function_calls>'' output function_xml"
    by simp
  show "snd (single_retriever_step w prompt output)
               = Inr (False, prompt @ output @ function_results w func_response)"
    unfolding step_block [OF assms b, of w prompt] using h by (simp add: snd_then_silent)
  qed
qed


theorem single_retriever_step_extends_prompt_witness:
  "\<exists>new_prompt. snd (single_retriever_step sample_world ''Q'' lat_long_output) = Inr (False, new_prompt)
     \<and> strict_prefix ''Q'' new_prompt"
proof -
  have a: "\<not> py_in ''<answer>'' lat_long_output" by code_simp
  let ?np = "''Q'' @ lat_long_output @ function_results sample_world
      (PDict [(''latitude'', PInt 36), (''longitude'', PInt (- 115))])"
  have np: "snd (single_retriever_step sample_world ''Q'' lat_long_output) = Inr (False, ?np)"
    by code_simp
  from single_retriever_step_extends_prompt [OF a, of sample_world "''Q''" False ?np] np
  show ?thesis by blast
qed

end
